theory Spec2Isabelle
  imports Main "HOL-Library.Word"
begin

section \<open>Values, errors and the Django ORM\<close>

text \<open>
  A shallow embedding of \<^verbatim>\<open>blockstore/apps/api/methods.py\<close> and of the
  \<^verbatim>\<open>Draft\<close> table created by migration \<^verbatim>\<open>0002_create_drafts.py\<close>.
  A UUID is a 128-bit value, a path, a name and a digest are strings, and a Python
  integer is an \<^typ>\<open>int\<close>.
\<close>

type_synonym uuid = "128 word"
type_synonym path = string
type_synonym digest = string

text \<open>
  Every exception the modelled code raises or lets through is a value. The first four
  are the \<^verbatim>\<open>NotFound\<close> subclasses of \<^verbatim>\<open>.exceptions\<close>;
  \<^verbatim>\<open>DoesNotExist\<close>, \<^verbatim>\<open>MultipleObjectsReturned\<close> and
  \<^verbatim>\<open>IntegrityError\<close> are Django's; the others are Python's own.
\<close>

datatype error =
    CollectionNotFound
  | BundleNotFound
  | DraftNotFound
  | BundleFileNotFound
  | NotFound
  | DoesNotExist
  | MultipleObjectsReturned
  | IntegrityError
  | AssertionError
  | ValueError
  | TypeError
  | NameError
  | UnicodeEncodeError
  | ValidationError
  | HTTPError int

text \<open>
  \<^verbatim>\<open>Model.objects.get(...)\<close>: the one row that matches, \<^verbatim>\<open>DoesNotExist\<close>
  when none does and \<^verbatim>\<open>MultipleObjectsReturned\<close> when several do.
\<close>

definition objects_get :: "('r \<Rightarrow> bool) \<Rightarrow> 'r list \<Rightarrow> error + 'r" where
  "objects_get P rows =
     (case filter P rows of
        [] \<Rightarrow> Inl DoesNotExist
      | [r] \<Rightarrow> Inr r
      | _ \<Rightarrow> Inl MultipleObjectsReturned)"

text \<open>
  \<^verbatim>\<open>try: ... except Model.DoesNotExist: raise E(...)\<close>: only
  \<^verbatim>\<open>DoesNotExist\<close> is caught; every other exception passes through.
\<close>

definition except_DoesNotExist :: "error \<Rightarrow> error + 'a \<Rightarrow> error + 'a" where
  "except_DoesNotExist e r = (if r = Inl DoesNotExist then Inl e else r)"

text \<open>
  A dict comprehension \<^verbatim>\<open>{k: v for ...}\<close> over a sequence of pairs: a later pair
  replaces an earlier one with the same key.
\<close>

definition dict_of :: "('k \<times> 'v) list \<Rightarrow> ('k \<rightharpoonup> 'v)" where
  "dict_of kvs = map_of (rev kvs)"

section \<open>Stored rows\<close>

record FileEntry =
  fe_hash_digest :: digest
  fe_size :: int

datatype FileDiff = Write digest int | Delete

record LinkReference =
  lr_bundle_uuid :: uuid
  lr_version :: int

datatype LinkDiff = SetLink uuid int | DeleteLink

record LinkManifestEntry =
  lme_direct :: LinkReference
  lme_indirect :: "LinkReference list"

record collection_model =
  cm_uuid :: uuid
  cm_title :: string

record bundle_model =
  bm_uuid :: uuid
  bm_title :: string
  bm_description :: string
  bm_slug :: string
  bm_collection :: uuid

text \<open>
  Modelled from the spec: the \<^verbatim>\<open>BundleVersion\<close> rows of
  \<^verbatim>\<open>blockstore.apps.bundles.models\<close>, which is not among the sources. The spec's
  data model gives a version its bundle, its number and the file and link manifests of
  its snapshot.
\<close>

record bundle_version_model =
  bvm_bundle :: uuid
  bvm_version_num :: int
  bvm_files :: "path \<rightharpoonup> FileEntry"
  bvm_links :: "string \<rightharpoonup> LinkManifestEntry"

text \<open>
  The \<^verbatim>\<open>Draft\<close> table of the migration has the columns \<^verbatim>\<open>uuid\<close>,
  \<^verbatim>\<open>name\<close> and \<^verbatim>\<open>bundle\<close> (a foreign key, kept here as the uuid of the
  bundle it points to).

  Modelled from the spec: the staged state of a draft, which the code reads through
  \<^verbatim>\<open>draft.staged_draft\<close> (a property of \<^verbatim>\<open>models.Draft\<close> backed by
  \<^verbatim>\<open>DraftRepo\<close>, neither among the sources). The spec's data model gives a draft
  a base version number, a staged file diff, a staged link diff and a time of last update.
\<close>

record draft_model =
  dm_uuid :: uuid
  dm_name :: string
  dm_bundle :: uuid
  dm_base_version_num :: int
  dm_staged_files :: "path \<rightharpoonup> FileDiff"
  dm_staged_links :: "string \<rightharpoonup> LinkDiff"
  dm_updated_at :: int

text \<open>
  The database: one list of rows per table, in insertion order. Modelled from the spec:
  the Content Store, which keeps each blob under its digest.
\<close>

type_synonym byte = "8 word"

record db =
  Collection_objects :: "collection_model list"
  Bundle_objects :: "bundle_model list"
  BundleVersion_objects :: "bundle_version_model list"
  Draft_objects :: "draft_model list"
  Content_store :: "digest \<rightharpoonup> byte list"

section \<open>The staged draft\<close>

text \<open>
  What \<^verbatim>\<open>draft.staged_draft\<close> returns: the time of the last update, the files of
  the base snapshot, the staged diff (\<^verbatim>\<open>files_to_overwrite\<close>, where a deleted path
  is a key too) and the composed view \<^verbatim>\<open>files\<close>.
\<close>

record StagedDraft =
  sd_updated_at :: int
  sd_base_files :: "path \<rightharpoonup> FileEntry"
  sd_base_links :: "string \<rightharpoonup> LinkManifestEntry"
  files_to_overwrite :: "path \<rightharpoonup> FileDiff"
  links_to_overwrite :: "string \<rightharpoonup> LinkDiff"

text \<open>
  Modelled from the spec: \<^verbatim>\<open>effective_files\<close>, the property
  \<^verbatim>\<open>StagedDraft.files\<close> of the absent \<^verbatim>\<open>blockstore.apps.bundles.store\<close>.
  The base snapshot's files with the staged diff applied: a path staged with
  \<^verbatim>\<open>Delete\<close> is absent, a path staged with \<^verbatim>\<open>Write\<close> is present even if
  the base does not have it.
\<close>

definition effective_files :: "(path \<rightharpoonup> FileEntry) \<Rightarrow> (path \<rightharpoonup> FileDiff) \<Rightarrow> (path \<rightharpoonup> FileEntry)" where
  "effective_files base staged =
     (\<lambda>p. case staged p of
             None \<Rightarrow> base p
           | Some Delete \<Rightarrow> None
           | Some (Write h n) \<Rightarrow> Some \<lparr>fe_hash_digest = h, fe_size = n\<rparr>)"

definition sd_files :: "StagedDraft \<Rightarrow> (path \<rightharpoonup> FileEntry)" where
  "sd_files sd = effective_files (sd_base_files sd) (files_to_overwrite sd)"

text \<open>
  Modelled from the spec: the snapshot a draft is anchored to. Base version 0 is the
  empty snapshot; otherwise it is the bundle's version with that number.
\<close>

definition base_snapshot :: "db \<Rightarrow> draft_model \<Rightarrow> bundle_version_model option" where
  "base_snapshot s draft =
     (case filter (\<lambda>v. bvm_bundle v = dm_bundle draft \<and> bvm_version_num v = dm_base_version_num draft)
             (BundleVersion_objects s) of
        [] \<Rightarrow> None
      | v # _ \<Rightarrow> Some v)"

definition staged_draft :: "db \<Rightarrow> draft_model \<Rightarrow> StagedDraft" where
  "staged_draft s draft =
     \<lparr>sd_updated_at = dm_updated_at draft,
      sd_base_files = (case base_snapshot s draft of None \<Rightarrow> Map.empty | Some v \<Rightarrow> bvm_files v),
      sd_base_links = (case base_snapshot s draft of None \<Rightarrow> Map.empty | Some v \<Rightarrow> bvm_links v),
      files_to_overwrite = dm_staged_files draft,
      links_to_overwrite = dm_staged_links draft\<rparr>"

section \<open>The data classes of the API\<close>

record Collection =
  col_uuid :: uuid
  col_title :: string

record Bundle =
  bun_uuid :: uuid
  bun_title :: string
  bun_description :: string
  bun_slug :: string
  bun_drafts :: "string \<rightharpoonup> uuid"
  bun_latest_version :: int

record BundleFile =
  bf_path :: path
  bf_size :: int
  bf_url :: string
  bf_hash_digest :: digest

record DraftFile = BundleFile +
  df_modified :: bool

record LinkDetails =
  ld_name :: string
  ld_direct :: LinkReference
  ld_indirect :: "LinkReference list"

record DraftLinkDetails = LinkDetails +
  dld_modified :: bool

record Draft =
  dr_uuid :: uuid
  dr_bundle_uuid :: uuid
  dr_name :: string
  dr_updated_at :: int
  dr_files :: "path \<rightharpoonup> DraftFile"
  dr_links :: "string \<rightharpoonup> DraftLinkDetails"

section \<open>Collections\<close>

definition data_from_collection :: "collection_model \<Rightarrow> Collection" where
  "data_from_collection collection =
     \<lparr>col_uuid = cm_uuid collection, col_title = cm_title collection\<rparr>"

definition get_collection :: "db \<Rightarrow> uuid \<Rightarrow> error + (Collection \<times> db)" where
  "get_collection s collection_uuid =
     (case except_DoesNotExist CollectionNotFound
             (objects_get (\<lambda>c. cm_uuid c = collection_uuid) (Collection_objects s)) of
        Inl e \<Rightarrow> Inl e
      | Inr collection \<Rightarrow> Inr (data_from_collection collection, s))"

text \<open>
  A new row gets its uuid from \<^verbatim>\<open>uuid.uuid4\<close>; the model takes that value as
  the argument \<open>new_uuid\<close>. Modelled from the spec: collections and bundles are
  identified by their uuid, so \<^verbatim>\<open>save\<close> refuses a second row with the same one
  (the initial migration, which declares the two tables, is not among the sources).
\<close>

definition create_collection :: "db \<Rightarrow> uuid \<Rightarrow> string \<Rightarrow> error + (Collection \<times> db)" where
  "create_collection s new_uuid title =
     (let collection = \<lparr>cm_uuid = new_uuid, cm_title = title\<rparr> in
      if new_uuid \<in> cm_uuid ` set (Collection_objects s) then Inl IntegrityError
      else Inr (data_from_collection collection,
                s\<lparr>Collection_objects := Collection_objects s @ [collection]\<rparr>))"

definition update_collection :: "db \<Rightarrow> uuid \<Rightarrow> string \<Rightarrow> error + (Collection \<times> db)" where
  "update_collection s collection_uuid title =
     (case except_DoesNotExist CollectionNotFound
             (objects_get (\<lambda>c. cm_uuid c = collection_uuid) (Collection_objects s)) of
        Inl e \<Rightarrow> Inl e
      | Inr collection0 \<Rightarrow>
          (let collection = collection0\<lparr>cm_title := title\<rparr> in
           Inr (data_from_collection collection,
                s\<lparr>Collection_objects :=
                    map (\<lambda>c. if cm_uuid c = collection_uuid then collection else c)
                      (Collection_objects s)\<rparr>)))"

text \<open>
  Deleting a bundle deletes its drafts (\<^verbatim>\<open>on_delete=CASCADE\<close> in the migration).
  Modelled from the spec: a collection owns its bundles and a bundle owns its versions,
  so they are deleted with it.
\<close>

definition delete_bundles :: "db \<Rightarrow> (bundle_model \<Rightarrow> bool) \<Rightarrow> db" where
  "delete_bundles s doomed =
     (let gone = map bm_uuid (filter doomed (Bundle_objects s)) in
      s\<lparr>Bundle_objects := filter (\<lambda>b. \<not> doomed b) (Bundle_objects s),
        BundleVersion_objects := filter (\<lambda>v. bvm_bundle v \<notin> set gone) (BundleVersion_objects s),
        Draft_objects := filter (\<lambda>d. dm_bundle d \<notin> set gone) (Draft_objects s)\<rparr>)"

definition delete_collection :: "db \<Rightarrow> uuid \<Rightarrow> error + (unit \<times> db)" where
  "delete_collection s collection_uuid =
     (case except_DoesNotExist CollectionNotFound
             (objects_get (\<lambda>c. cm_uuid c = collection_uuid) (Collection_objects s)) of
        Inl e \<Rightarrow> Inl e
      | Inr collection \<Rightarrow>
          Inr ((), (delete_bundles s (\<lambda>b. bm_collection b = collection_uuid))
                     \<lparr>Collection_objects :=
                        filter (\<lambda>c. cm_uuid c \<noteq> collection_uuid) (Collection_objects s)\<rparr>))"

section \<open>Bundles\<close>

text \<open>
  Modelled from the spec: \<^verbatim>\<open>bundle.get_bundle_version()\<close> of the absent
  \<^verbatim>\<open>models.Bundle\<close>, the bundle's latest version (the one with the greatest
  number) or \<^verbatim>\<open>None\<close> when it has none.
\<close>

definition latest_of :: "bundle_version_model list \<Rightarrow> bundle_version_model option" where
  "latest_of vs =
     foldl (\<lambda>acc v. case acc of
                       None \<Rightarrow> Some v
                     | Some w \<Rightarrow> if bvm_version_num w < bvm_version_num v then Some v else Some w)
       None vs"

definition Bundle_get_bundle_version :: "db \<Rightarrow> bundle_model \<Rightarrow> bundle_version_model option" where
  "Bundle_get_bundle_version s bundle =
     latest_of (filter (\<lambda>v. bvm_bundle v = bm_uuid bundle) (BundleVersion_objects s))"

text \<open>\<^verbatim>\<open>bundle.drafts.all()\<close>: the drafts whose foreign key is this bundle.\<close>

definition Bundle_drafts_all :: "db \<Rightarrow> bundle_model \<Rightarrow> draft_model list" where
  "Bundle_drafts_all s bundle = filter (\<lambda>d. dm_bundle d = bm_uuid bundle) (Draft_objects s)"

definition data_from_bundle :: "db \<Rightarrow> bundle_model \<Rightarrow> Bundle" where
  "data_from_bundle s bundle =
     (let latest_bundle_version = Bundle_get_bundle_version s bundle in
      \<lparr>bun_uuid = bm_uuid bundle,
       bun_title = bm_title bundle,
       bun_description = bm_description bundle,
       bun_slug = bm_slug bundle,
       bun_drafts = dict_of (map (\<lambda>draft. (dm_name draft, dm_uuid draft)) (Bundle_drafts_all s bundle)),
       bun_latest_version =
         (case latest_bundle_version of Some v \<Rightarrow> bvm_version_num v | None \<Rightarrow> 0)\<rparr>)"

definition get_bundle :: "db \<Rightarrow> uuid \<Rightarrow> error + (Bundle \<times> db)" where
  "get_bundle s bundle_uuid =
     (case except_DoesNotExist BundleNotFound
             (objects_get (\<lambda>b. bm_uuid b = bundle_uuid) (Bundle_objects s)) of
        Inl e \<Rightarrow> Inl e
      | Inr bundle \<Rightarrow> Inr (data_from_bundle s bundle, s))"

definition create_bundle :: "db \<Rightarrow> uuid \<Rightarrow> uuid \<Rightarrow> string \<Rightarrow> string \<Rightarrow> string \<Rightarrow> error + (Bundle \<times> db)" where
  "create_bundle s new_uuid collection_uuid slug title description =
     (case except_DoesNotExist CollectionNotFound
             (objects_get (\<lambda>c. cm_uuid c = collection_uuid) (Collection_objects s)) of
        Inl e \<Rightarrow> Inl e
      | Inr collection \<Rightarrow>
          (let bundle = \<lparr>bm_uuid = new_uuid, bm_title = title, bm_description = description,
                         bm_slug = slug, bm_collection = cm_uuid collection\<rparr> in
           if new_uuid \<in> bm_uuid ` set (Bundle_objects s) then Inl IntegrityError
           else (let s' = s\<lparr>Bundle_objects := Bundle_objects s @ [bundle]\<rparr> in
                 Inr (data_from_bundle s' bundle, s'))))"

definition delete_bundle :: "db \<Rightarrow> uuid \<Rightarrow> error + (unit \<times> db)" where
  "delete_bundle s bundle_uuid =
     (case except_DoesNotExist BundleNotFound
             (objects_get (\<lambda>b. bm_uuid b = bundle_uuid) (Bundle_objects s)) of
        Inl e \<Rightarrow> Inl e
      | Inr bundle \<Rightarrow> Inr ((), delete_bundles s (\<lambda>b. bm_uuid b = bundle_uuid)))"

text \<open>
  The keyword arguments of \<^verbatim>\<open>update_bundle(bundle_uuid, **fields)\<close>: a dict from
  names to Python values, here a list of pairs with distinct keys. A value is a string
  or a UUID object.
\<close>

datatype pyval = PyStr string | PyUUID uuid

definition hex_digit :: "nat \<Rightarrow> char" where
  "hex_digit d = ''0123456789abcdef'' ! (d mod 16)"

fun hex_digits :: "nat \<Rightarrow> nat \<Rightarrow> string" where
  "hex_digits 0 n = []"
| "hex_digits (Suc k) n = hex_digits k (n div 16) @ [hex_digit n]"

text \<open>\<^verbatim>\<open>str(u)\<close> of a UUID: 32 hexadecimal digits in groups of 8-4-4-4-12.\<close>

definition uuid_str :: "uuid \<Rightarrow> string" where
  "uuid_str u =
     (let h = hex_digits 32 (unat u) in
      take 8 h @ ''-'' @ take 4 (drop 8 h) @ ''-'' @ take 4 (drop 12 h) @ ''-'' @
      take 4 (drop 16 h) @ ''-'' @ drop 20 h)"

fun py_str :: "pyval \<Rightarrow> pyval" where
  "py_str (PyStr t) = PyStr t"
| "py_str (PyUUID u) = PyStr (uuid_str u)"

fun isinstance_UUID :: "pyval \<Rightarrow> bool" where
  "isinstance_UUID (PyUUID u) = True"
| "isinstance_UUID (PyStr t) = False"

text \<open>
  The text a \<^verbatim>\<open>CharField\<close> column holds after \<^verbatim>\<open>setattr\<close> and
  \<^verbatim>\<open>save\<close>: a string as it is, any other value through \<^verbatim>\<open>str\<close>.
\<close>

fun text_of :: "pyval \<Rightarrow> string" where
  "text_of (PyStr t) = t"
| "text_of (PyUUID u) = uuid_str u"

text \<open>
  The lookup \<^verbatim>\<open>objects.get(uuid=v)\<close>: Django's \<^verbatim>\<open>UUIDField\<close> takes a UUID
  object or its string form.
\<close>

definition uuid_matches :: "pyval \<Rightarrow> uuid \<Rightarrow> bool" where
  "uuid_matches v u = (v = PyUUID u \<or> v = PyStr (uuid_str u))"

definition pop :: "string \<Rightarrow> (string \<times> pyval) list \<Rightarrow> (string \<times> pyval) list" where
  "pop k kwargs = filter (\<lambda>kv. fst kv \<noteq> k) kwargs"

text \<open>
  \<^verbatim>\<open>if str_field in fields: setattr(bundle, str_field, fields.pop(str_field))\<close>,
  for one of the three string fields.
\<close>

definition set_str_field ::
  "string \<Rightarrow> (string \<Rightarrow> bundle_model \<Rightarrow> bundle_model) \<Rightarrow> bundle_model \<times> (string \<times> pyval) list
     \<Rightarrow> bundle_model \<times> (string \<times> pyval) list" where
  "set_str_field str_field setattr bf =
     (case map_of (snd bf) str_field of
        None \<Rightarrow> bf
      | Some v \<Rightarrow> (setattr (text_of v) (fst bf), pop str_field (snd bf)))"

text \<open>
  The end of \<^verbatim>\<open>update_bundle\<close>: fields that are left raise
  \<^verbatim>\<open>ValueError\<close>; otherwise the row is saved in place of the stored one.
\<close>

definition update_bundle_save ::
  "db \<Rightarrow> uuid \<Rightarrow> bundle_model \<Rightarrow> (string \<times> pyval) list \<Rightarrow> error + (Bundle \<times> db)" where
  "update_bundle_save s bundle_uuid bundle kwargs =
     (if kwargs \<noteq> [] then Inl ValueError
      else (let s' = s\<lparr>Bundle_objects :=
                        map (\<lambda>b. if bm_uuid b = bundle_uuid then bundle else b) (Bundle_objects s)\<rparr>
            in Inr (data_from_bundle s' bundle, s')))"

definition update_bundle :: "db \<Rightarrow> uuid \<Rightarrow> (string \<times> pyval) list \<Rightarrow> error + (Bundle \<times> db)" where
  "update_bundle s bundle_uuid kwargs0 =
     (case except_DoesNotExist BundleNotFound
             (objects_get (\<lambda>b. bm_uuid b = bundle_uuid) (Bundle_objects s)) of
        Inl e \<Rightarrow> Inl e
      | Inr bundle0 \<Rightarrow>
          (let (bundle, kwargs) =
                 set_str_field ''slug'' (\<lambda>t b. b\<lparr>bm_slug := t\<rparr>)
                   (set_str_field ''description'' (\<lambda>t b. b\<lparr>bm_description := t\<rparr>)
                      (set_str_field ''title'' (\<lambda>t b. b\<lparr>bm_title := t\<rparr>) (bundle0, kwargs0)))
           in case map_of kwargs ''collection_uuid'' of
                None \<Rightarrow> update_bundle_save s bundle_uuid bundle kwargs
              | Some v \<Rightarrow>
                  (let collection_uuid = py_str v;
                       kwargs' = pop ''collection_uuid'' kwargs
                   in if \<not> isinstance_UUID collection_uuid then Inl AssertionError
                      else (case except_DoesNotExist CollectionNotFound
                                   (objects_get (\<lambda>c. uuid_matches collection_uuid (cm_uuid c))
                                      (Collection_objects s)) of
                              Inl e \<Rightarrow> Inl e
                            | Inr collection \<Rightarrow>
                                update_bundle_save s bundle_uuid
                                  (bundle\<lparr>bm_collection := cm_uuid collection\<rparr>) kwargs'))))"

section \<open>Drafts\<close>

text \<open>
  \<^verbatim>\<open>_data_from_draft\<close>: one \<^verbatim>\<open>DraftFile\<close> per path of the composed view,
  its \<^verbatim>\<open>modified\<close> flag being \<^verbatim>\<open>path in files_to_overwrite\<close>; the links are
  the empty dict (the code that would fill them is commented out under a
  \<^verbatim>\<open>Todo\<close>).
\<close>

definition data_from_draft :: "db \<Rightarrow> draft_model \<Rightarrow> Draft" where
  "data_from_draft s draft =
     (let sd = staged_draft s draft in
      \<lparr>dr_uuid = dm_uuid draft,
       dr_bundle_uuid = dm_bundle draft,
       dr_name = dm_name draft,
       dr_updated_at = sd_updated_at sd,
       dr_files =
         (\<lambda>path. case sd_files sd path of
                    None \<Rightarrow> None
                  | Some file_info \<Rightarrow>
                      Some \<lparr>bf_path = path,
                            bf_size = fe_size file_info,
                            bf_url = path,
                            bf_hash_digest = fe_hash_digest file_info,
                            df_modified = (files_to_overwrite sd path \<noteq> None)\<rparr>),
       dr_links = Map.empty\<rparr>)"

definition get_draft :: "db \<Rightarrow> uuid \<Rightarrow> error + (Draft \<times> db)" where
  "get_draft s draft_uuid =
     (case except_DoesNotExist DraftNotFound
             (objects_get (\<lambda>d. dm_uuid d = draft_uuid) (Draft_objects s)) of
        Inl e \<Rightarrow> Inl e
      | Inr draft \<Rightarrow> Inr (data_from_draft s draft, s))"

text \<open>
  \<^verbatim>\<open>draft.save()\<close> of a new row. The migration makes \<^verbatim>\<open>uuid\<close> unique and
  \<^verbatim>\<open>(bundle, name)\<close> unique together, so the database refuses a row that repeats
  either. (The length limit of 180 on \<^verbatim>\<open>name\<close> is left to the database backend
  and is not modelled.)
\<close>

definition Draft_save :: "db \<Rightarrow> draft_model \<Rightarrow> error + db" where
  "Draft_save s draft =
     (if dm_uuid draft \<in> dm_uuid ` set (Draft_objects s)
         \<or> (dm_bundle draft, dm_name draft) \<in> (\<lambda>d. (dm_bundle d, dm_name d)) ` set (Draft_objects s)
      then Inl IntegrityError
      else Inr (s\<lparr>Draft_objects := Draft_objects s @ [draft]\<rparr>))"

text \<open>
  Modelled from the spec: the staged state of a draft that was just created. It is
  anchored to the bundle's current latest version (0 if none) and its staged diffs are
  empty; \<open>now\<close> is the time of the call.
\<close>

definition new_draft :: "db \<Rightarrow> uuid \<Rightarrow> int \<Rightarrow> bundle_model \<Rightarrow> string \<Rightarrow> draft_model" where
  "new_draft s new_uuid now bundle draft_name =
     \<lparr>dm_uuid = new_uuid,
      dm_name = draft_name,
      dm_bundle = bm_uuid bundle,
      dm_base_version_num =
        (case Bundle_get_bundle_version s bundle of Some v \<Rightarrow> bvm_version_num v | None \<Rightarrow> 0),
      dm_staged_files = Map.empty,
      dm_staged_links = Map.empty,
      dm_updated_at = now\<rparr>"

definition get_or_create_bundle_draft ::
  "db \<Rightarrow> uuid \<Rightarrow> int \<Rightarrow> uuid \<Rightarrow> string \<Rightarrow> error + (Draft \<times> db)" where
  "get_or_create_bundle_draft s new_uuid now bundle_uuid draft_name =
     (case except_DoesNotExist BundleNotFound
             (objects_get (\<lambda>b. bm_uuid b = bundle_uuid) (Bundle_objects s)) of
        Inl e \<Rightarrow> Inl e
      | Inr bundle \<Rightarrow>
          (case objects_get (\<lambda>d. dm_bundle d = bm_uuid bundle \<and> dm_name d = draft_name)
                  (Draft_objects s) of
             Inr draft \<Rightarrow> Inr (data_from_draft s draft, s)
           | Inl e \<Rightarrow>
               if e = DoesNotExist then
                 (let draft = new_draft s new_uuid now bundle draft_name in
                  case Draft_save s draft of
                    Inl e' \<Rightarrow> Inl e'
                  | Inr s' \<Rightarrow> Inr (data_from_draft s' draft, s'))
               else Inl e))"

section \<open>Bundle versions, read through the REST API\<close>

text \<open>
  The JSON of a bundle version, as far as the code reads it:
  \<^verbatim>\<open>version_info["snapshot"]["files"]\<close> and \<^verbatim>\<open>["links"]\<close>, each an object whose
  members are kept in order.
\<close>

record file_metadata =
  fm_size :: int
  fm_url :: string
  fm_hash_digest :: digest

record link_json =
  lj_direct :: LinkReference
  lj_indirect :: "LinkReference list"

record version_info =
  vi_files :: "(path \<times> file_metadata) list"
  vi_links :: "(string \<times> link_json) list"

text \<open>
  \<^verbatim>\<open>api_request\<close> and \<^verbatim>\<open>api_url\<close> are not among the sources. The functions
  below take the request they make as the argument \<open>request_version\<close>: what
  \<^verbatim>\<open>api_request('get', api_url('bundle_versions', str(bundle_uuid) + ',' + str(version_number)))\<close>
  answers, a parsed body or an exception.
\<close>

type_synonym version_request = "uuid \<Rightarrow> int \<Rightarrow> error + version_info"

text \<open>
  The request as \<^verbatim>\<open>methods.py\<close> stands: the module neither defines nor imports
  \<^verbatim>\<open>api_url\<close> and \<^verbatim>\<open>api_request\<close>, so evaluating the call raises
  \<^verbatim>\<open>NameError\<close>, whatever the bundle and the version number.
\<close>

definition module_request :: version_request where
  "module_request bundle_uuid version_number = Inl NameError"

definition get_bundle_version :: "version_request \<Rightarrow> uuid \<Rightarrow> int \<Rightarrow> error + version_info option" where
  "get_bundle_version request_version bundle_uuid version_number =
     (if version_number = 0 then Inr None
      else (case request_version bundle_uuid version_number of
              Inl e \<Rightarrow> Inl e
            | Inr version_info \<Rightarrow> Inr (Some version_info)))"

text \<open>Subscripting \<^verbatim>\<open>None\<close> raises \<^verbatim>\<open>TypeError\<close>.\<close>

definition get_bundle_version_files :: "version_request \<Rightarrow> uuid \<Rightarrow> int \<Rightarrow> error + BundleFile list" where
  "get_bundle_version_files request_version bundle_uuid version_number =
     (if version_number = 0 then Inr []
      else (case get_bundle_version request_version bundle_uuid version_number of
              Inl e \<Rightarrow> Inl e
            | Inr None \<Rightarrow> Inl TypeError
            | Inr (Some version_info) \<Rightarrow>
                Inr (map (\<lambda>(path, file_metadata).
                            \<lparr>bf_path = path,
                             bf_size = fm_size file_metadata,
                             bf_url = fm_url file_metadata,
                             bf_hash_digest = fm_hash_digest file_metadata\<rparr>)
                       (vi_files version_info))))"

definition get_bundle_version_links ::
  "version_request \<Rightarrow> uuid \<Rightarrow> int \<Rightarrow> error + (string \<rightharpoonup> LinkDetails)" where
  "get_bundle_version_links request_version bundle_uuid version_number =
     (if version_number = 0 then Inr Map.empty
      else (case get_bundle_version request_version bundle_uuid version_number of
              Inl e \<Rightarrow> Inl e
            | Inr None \<Rightarrow> Inl TypeError
            | Inr (Some version_info) \<Rightarrow>
                Inr (dict_of (map (\<lambda>(name, link).
                                     (name, \<lparr>ld_name = name,
                                             ld_direct = lj_direct link,
                                             ld_indirect = lj_indirect link\<rparr>))
                                (vi_links version_info)))))"

section \<open>Files and links of a bundle or of one of its drafts\<close>

text \<open>The values of the returned dicts are tuples of either class.\<close>

datatype file_tuple = IsBundleFile BundleFile | IsDraftFile DraftFile

datatype link_tuple = IsLinkDetails LinkDetails | IsDraftLinkDetails DraftLinkDetails

text \<open>
  \<^verbatim>\<open>use_draft and use_draft in bundle.drafts\<close>: \<^verbatim>\<open>None\<close> and the empty string
  are false.
\<close>

definition uses_draft :: "Bundle \<Rightarrow> string option \<Rightarrow> bool" where
  "uses_draft bundle use_draft =
     (case use_draft of
        None \<Rightarrow> False
      | Some name \<Rightarrow> name \<noteq> [] \<and> bun_drafts bundle name \<noteq> None)"

definition get_bundle_files_dict ::
  "db \<Rightarrow> version_request \<Rightarrow> uuid \<Rightarrow> string option \<Rightarrow> error + ((path \<rightharpoonup> file_tuple) \<times> db)" where
  "get_bundle_files_dict s request_version bundle_uuid use_draft =
     (case get_bundle s bundle_uuid of
        Inl e \<Rightarrow> Inl e
      | Inr (bundle, s1) \<Rightarrow>
          if uses_draft bundle use_draft then
            (let draft_uuid = the (bun_drafts bundle (the use_draft)) in
             case get_draft s1 draft_uuid of
               Inl e \<Rightarrow> Inl e
             | Inr (draft, s2) \<Rightarrow> Inr (map_option IsDraftFile \<circ> dr_files draft, s2))
          else if bun_latest_version bundle = 0 then Inr (Map.empty, s1)
          else (case get_bundle_version_files request_version bundle_uuid (bun_latest_version bundle) of
                  Inl e \<Rightarrow> Inl e
                | Inr file_metas \<Rightarrow>
                    Inr (dict_of (map (\<lambda>file_meta. (bf_path file_meta, IsBundleFile file_meta))
                                    file_metas), s1)))"

definition get_bundle_links ::
  "db \<Rightarrow> version_request \<Rightarrow> uuid \<Rightarrow> string option \<Rightarrow> error + ((string \<rightharpoonup> link_tuple) \<times> db)" where
  "get_bundle_links s request_version bundle_uuid use_draft =
     (case get_bundle s bundle_uuid of
        Inl e \<Rightarrow> Inl e
      | Inr (bundle, s1) \<Rightarrow>
          if uses_draft bundle use_draft then
            (let draft_uuid = the (bun_drafts bundle (the use_draft)) in
             case get_draft s1 draft_uuid of
               Inl e \<Rightarrow> Inl e
             | Inr (draft, s2) \<Rightarrow> Inr (map_option IsDraftLinkDetails \<circ> dr_links draft, s2))
          else if bun_latest_version bundle = 0 then Inr (Map.empty, s1)
          else (case get_bundle_version_links request_version bundle_uuid (bun_latest_version bundle) of
                  Inl e \<Rightarrow> Inl e
                | Inr links \<Rightarrow> Inr (map_option IsLinkDetails \<circ> links, s1)))"

section \<open>Writing a file into a draft\<close>

text \<open>
  \<^verbatim>\<open>contents\<close> is a text string (a sequence of code points) or a byte string.
  \<^verbatim>\<open>str.encode('utf8')\<close> refuses the surrogates U+D800 to U+DFFF; a code point
  is below 0x110000.
\<close>

datatype pycontents = Text "nat list" | Binary "byte list"

definition utf8_code_point :: "nat \<Rightarrow> byte list option" where
  "utf8_code_point cp =
     (if cp < 128 then Some [of_nat cp]
      else if cp < 2048 then Some [of_nat (192 + cp div 64), of_nat (128 + cp mod 64)]
      else if cp < 65536 then
        (if 55296 \<le> cp \<and> cp \<le> 57343 then None
         else Some [of_nat (224 + cp div 4096), of_nat (128 + cp div 64 mod 64),
                    of_nat (128 + cp mod 64)])
      else Some [of_nat (240 + cp div 262144), of_nat (128 + cp div 4096 mod 64),
                 of_nat (128 + cp div 64 mod 64), of_nat (128 + cp mod 64)])"

fun encode_utf8 :: "nat list \<Rightarrow> byte list option" where
  "encode_utf8 [] = Some []"
| "encode_utf8 (cp # cps) =
     (case utf8_code_point cp of
        None \<Rightarrow> None
      | Some bs \<Rightarrow> (case encode_utf8 cps of None \<Rightarrow> None | Some rest \<Rightarrow> Some (bs @ rest)))"

text \<open>\<^verbatim>\<open>base64.b64encode\<close>: the standard alphabet, padded with \<^verbatim>\<open>=\<close>.\<close>

definition b64_alphabet :: string where
  "b64_alphabet = ''ABCDEFGHIJKLMNOPQRSTUVWXYZabcdefghijklmnopqrstuvwxyz0123456789+/''"

definition b64_char :: "nat \<Rightarrow> char" where
  "b64_char i = b64_alphabet ! (i mod 64)"

fun b64encode :: "byte list \<Rightarrow> string" where
  "b64encode [] = []"
| "b64encode [a] =
     (let n = unat a in
      [b64_char (n div 4), b64_char (n mod 4 * 16), CHR ''='', CHR ''=''])"
| "b64encode [a, b] =
     (let n = unat a * 256 + unat b in
      [b64_char (n div 1024), b64_char (n div 16 mod 64), b64_char (n mod 16 * 4), CHR ''=''])"
| "b64encode (a # b # c # rest) =
     (let n = unat a * 65536 + unat b * 256 + unat c in
      [b64_char (n div 262144), b64_char (n div 4096 mod 64), b64_char (n div 64 mod 64),
       b64_char (n mod 64)] @ b64encode rest)"

definition binary_of :: "pycontents \<Rightarrow> error + byte list" where
  "binary_of input_str =
     (case input_str of
        Text cps \<Rightarrow> (case encode_utf8 cps of None \<Rightarrow> Inl UnicodeEncodeError | Some bs \<Rightarrow> Inr bs)
      | Binary bs \<Rightarrow> Inr bs)"

definition encode_str_for_draft :: "pycontents \<Rightarrow> error + string" where
  "encode_str_for_draft input_str =
     (case binary_of input_str of
        Inl e \<Rightarrow> Inl e
      | Inr binary \<Rightarrow> Inr (b64encode binary))"

text \<open>
  The request body \<^verbatim>\<open>data['files']\<close> that \<^verbatim>\<open>write_draft_file\<close> builds: a dict
  with the one key \<open>path\<close>, whose value is the encoded contents or \<^verbatim>\<open>None\<close>.
\<close>

definition write_draft_file_data :: "path \<Rightarrow> pycontents option \<Rightarrow> error + (path \<times> string option) list" where
  "write_draft_file_data path contents =
     (case contents of
        None \<Rightarrow> Inr [(path, None)]
      | Some c \<Rightarrow> (case encode_str_for_draft c of
                     Inl e \<Rightarrow> Inl e
                   | Inr encoded \<Rightarrow> Inr [(path, Some encoded)]))"

text \<open>
  Modelled from the spec: \<^verbatim>\<open>DraftFileUpdateSerializer\<close> of the absent
  \<^verbatim>\<open>rest_api\<close> package, the boundary that turns the encoded text of a request back
  into the raw bytes the core deals in. A text that is not base64 is a validation
  error. The decoder is strict: groups of four characters of the alphabet, padding only
  at the end.
\<close>

fun index_of :: "'a \<Rightarrow> 'a list \<Rightarrow> nat option" where
  "index_of x [] = None"
| "index_of x (y # ys) = (if x = y then Some 0 else map_option Suc (index_of x ys))"

definition b64_index :: "char \<Rightarrow> nat option" where
  "b64_index c = index_of c b64_alphabet"

fun b64decode :: "string \<Rightarrow> byte list option" where
  "b64decode [] = Some []"
| "b64decode (c1 # c2 # c3 # c4 # rest) =
     (case (b64_index c1, b64_index c2) of
        (Some i1, Some i2) \<Rightarrow>
          if rest = [] \<and> c3 = CHR ''='' \<and> c4 = CHR ''='' then
            Some [of_nat (i1 * 4 + i2 div 16)]
          else
            (case b64_index c3 of
               None \<Rightarrow> None
             | Some i3 \<Rightarrow>
                 if rest = [] \<and> c4 = CHR ''='' then
                   (let n = i1 * 4096 + i2 * 64 + i3 in
                    Some [of_nat (n div 1024), of_nat (n div 4 mod 256)])
                 else
                   (case b64_index c4 of
                      None \<Rightarrow> None
                    | Some i4 \<Rightarrow>
                        (let n = i1 * 262144 + i2 * 4096 + i3 * 64 + i4 in
                         case b64decode rest of
                           None \<Rightarrow> None
                         | Some bs \<Rightarrow>
                             Some (of_nat (n div 65536) # of_nat (n div 256 mod 256)
                                   # of_nat (n mod 256) # bs))))
      | _ \<Rightarrow> None)"
| "b64decode _ = None"

fun validated_files :: "(path \<times> string option) list \<Rightarrow> error + (path \<times> byte list option) list" where
  "validated_files [] = Inr []"
| "validated_files ((path, None) # fs) =
     (case validated_files fs of Inl e \<Rightarrow> Inl e | Inr vs \<Rightarrow> Inr ((path, None) # vs))"
| "validated_files ((path, Some encoded) # fs) =
     (case b64decode encoded of
        None \<Rightarrow> Inl ValidationError
      | Some bs \<Rightarrow> (case validated_files fs of Inl e \<Rightarrow> Inl e | Inr vs \<Rightarrow> Inr ((path, Some bs) # vs)))"

text \<open>
  Modelled from the spec: \<^verbatim>\<open>write_file\<close>, the file part of
  \<^verbatim>\<open>DraftRepo.update\<close> of the absent \<^verbatim>\<open>blockstore.apps.bundles.store\<close>. Content
  that is present is stored in the Content Store under its digest and staged as
  \<^verbatim>\<open>Write(digest, size)\<close>; \<^verbatim>\<open>None\<close> is staged as \<^verbatim>\<open>Delete\<close>; the draft's
  \<^verbatim>\<open>updated_at\<close> advances to \<open>now\<close>. The digest is the argument \<open>H\<close>.
  \<^verbatim>\<open>write_draft_file\<close> passes no links (the request body has none), so the link part
  of the update, and with it \<^verbatim>\<open>LinkCycleError\<close>, does not come into play.
\<close>

fun stage_file ::
  "(byte list \<Rightarrow> digest) \<Rightarrow> (digest \<rightharpoonup> byte list) \<times> (path \<rightharpoonup> FileDiff) \<Rightarrow> path \<times> byte list option
     \<Rightarrow> (digest \<rightharpoonup> byte list) \<times> (path \<rightharpoonup> FileDiff)" where
  "stage_file H (store, staged) (path, None) = (store, staged(path \<mapsto> Delete))"
| "stage_file H (store, staged) (path, Some bs) =
     (store(H bs \<mapsto> bs), staged(path \<mapsto> Write (H bs) (int (length bs))))"

definition DraftRepo_update ::
  "db \<Rightarrow> (byte list \<Rightarrow> digest) \<Rightarrow> int \<Rightarrow> uuid \<Rightarrow> (path \<times> byte list option) list \<Rightarrow> error + (unit \<times> db)" where
  "DraftRepo_update s H now draft_uuid files_to_write =
     (case except_DoesNotExist DraftNotFound
             (objects_get (\<lambda>d. dm_uuid d = draft_uuid) (Draft_objects s)) of
        Inl e \<Rightarrow> Inl e
      | Inr draft \<Rightarrow>
          (let (store, staged) = foldl (stage_file H) (Content_store s, dm_staged_files draft) files_to_write;
               draft' = draft\<lparr>dm_staged_files := staged, dm_updated_at := now\<rparr>
           in Inr ((), s\<lparr>Content_store := store,
                         Draft_objects := map (\<lambda>d. if dm_uuid d = draft_uuid then draft' else d)
                                            (Draft_objects s)\<rparr>)))"

definition write_draft_file ::
  "db \<Rightarrow> (byte list \<Rightarrow> digest) \<Rightarrow> int \<Rightarrow> uuid \<Rightarrow> path \<Rightarrow> pycontents option \<Rightarrow> error + (unit \<times> db)" where
  "write_draft_file s H now draft_uuid path contents =
     (case write_draft_file_data path contents of
        Inl e \<Rightarrow> Inl e
      | Inr data_files \<Rightarrow>
          (case validated_files data_files of
             Inl e \<Rightarrow> Inl e
           | Inr files_to_write \<Rightarrow> DraftRepo_update s H now draft_uuid files_to_write))"

section \<open>The operations as one step function\<close>

text \<open>
  The operations of \<^verbatim>\<open>methods.py\<close> that act on the database, with their
  arguments. \<^verbatim>\<open>commit_draft\<close>, \<^verbatim>\<open>delete_draft\<close> and
  \<^verbatim>\<open>set_draft_link\<close> only send a request through the absent
  \<^verbatim>\<open>api_request\<close> and are not among them.
\<close>

datatype operation =
    GetCollection uuid
  | CreateCollection uuid string
  | UpdateCollection uuid string
  | DeleteCollection uuid
  | GetBundle uuid
  | CreateBundle uuid uuid string string string
  | UpdateBundle uuid "(string \<times> pyval) list"
  | DeleteBundle uuid
  | GetDraft uuid
  | GetOrCreateBundleDraft uuid int uuid string
  | GetBundleFilesDict uuid "string option"
  | GetBundleLinks uuid "string option"
  | WriteDraftFile int uuid path "pycontents option"

definition state_after :: "error + ('a \<times> db) \<Rightarrow> error + db" where
  "state_after r = (case r of Inl e \<Rightarrow> Inl e | Inr (x, s') \<Rightarrow> Inr s')"

fun run :: "version_request \<Rightarrow> (byte list \<Rightarrow> digest) \<Rightarrow> db \<Rightarrow> operation \<Rightarrow> error + db" where
  "run rq H s (GetCollection u) = state_after (get_collection s u)"
| "run rq H s (CreateCollection new_uuid title) = state_after (create_collection s new_uuid title)"
| "run rq H s (UpdateCollection u title) = state_after (update_collection s u title)"
| "run rq H s (DeleteCollection u) = state_after (delete_collection s u)"
| "run rq H s (GetBundle u) = state_after (get_bundle s u)"
| "run rq H s (CreateBundle new_uuid c slug title description) =
     state_after (create_bundle s new_uuid c slug title description)"
| "run rq H s (UpdateBundle u kwargs) = state_after (update_bundle s u kwargs)"
| "run rq H s (DeleteBundle u) = state_after (delete_bundle s u)"
| "run rq H s (GetDraft u) = state_after (get_draft s u)"
| "run rq H s (GetOrCreateBundleDraft new_uuid now u name) =
     state_after (get_or_create_bundle_draft s new_uuid now u name)"
| "run rq H s (GetBundleFilesDict u use_draft) = state_after (get_bundle_files_dict s rq u use_draft)"
| "run rq H s (GetBundleLinks u use_draft) = state_after (get_bundle_links s rq u use_draft)"
| "run rq H s (WriteDraftFile now u path contents) = state_after (write_draft_file s H now u path contents)"

text \<open>The uniqueness the migration declares: no two drafts of a bundle share a name.\<close>

definition draft_names_unique :: "db \<Rightarrow> bool" where
  "draft_names_unique s = distinct (map (\<lambda>d. (dm_bundle d, dm_name d)) (Draft_objects s))"

section \<open>The spec's view of a draft's links\<close>

text \<open>
  The spec's \<^verbatim>\<open>effective_links\<close>, written from its words to compare with what
  \<^verbatim>\<open>_data_from_draft\<close> returns: the staged link diff applied over the base
  snapshot's links, each resulting link with the indirect closure that the Link Resolver
  \<open>resolve_indirect\<close> computes for its direct target.
\<close>

definition spec_effective_links ::
  "(LinkReference \<Rightarrow> LinkReference list) \<Rightarrow> StagedDraft \<Rightarrow> (string \<rightharpoonup> DraftLinkDetails)" where
  "spec_effective_links resolve_indirect sd =
     (\<lambda>name. case links_to_overwrite sd name of
                None \<Rightarrow>
                  (case sd_base_links sd name of
                     None \<Rightarrow> None
                   | Some entry \<Rightarrow>
                       Some \<lparr>ld_name = name, ld_direct = lme_direct entry,
                             ld_indirect = resolve_indirect (lme_direct entry),
                             dld_modified = False\<rparr>)
              | Some DeleteLink \<Rightarrow> None
              | Some (SetLink b v) \<Rightarrow>
                  (let direct = \<lparr>lr_bundle_uuid = b, lr_version = v\<rparr> in
                   Some \<lparr>ld_name = name, ld_direct = direct,
                         ld_indirect = resolve_indirect direct,
                         dld_modified = True\<rparr>))"

section \<open>A small database\<close>

text \<open>
  One collection, one bundle with one committed version and one draft
  \<^verbatim>\<open>studio_draft\<close> that overwrites \<^verbatim>\<open>b.txt\<close>, deletes \<^verbatim>\<open>c.txt\<close>, leaves
  \<^verbatim>\<open>a.txt\<close> alone and stages a link \<^verbatim>\<open>lib\<close>; and a second bundle with no
  version and no draft.
\<close>

definition example_version :: bundle_version_model where
  "example_version =
     \<lparr>bvm_bundle = 10, bvm_version_num = 1,
      bvm_files = [''a.txt'' \<mapsto> \<lparr>fe_hash_digest = ''ha'', fe_size = 5\<rparr>,
                   ''c.txt'' \<mapsto> \<lparr>fe_hash_digest = ''hc'', fe_size = 7\<rparr>],
      bvm_links = Map.empty\<rparr>"

definition example_draft :: draft_model where
  "example_draft =
     \<lparr>dm_uuid = 20, dm_name = ''studio_draft'', dm_bundle = 10, dm_base_version_num = 1,
      dm_staged_files = [''b.txt'' \<mapsto> Write ''hb'' 3, ''c.txt'' \<mapsto> Delete],
      dm_staged_links = [''lib'' \<mapsto> SetLink 11 1],
      dm_updated_at = 100\<rparr>"

definition example_bundle :: bundle_model where
  "example_bundle =
     \<lparr>bm_uuid = 10, bm_title = ''Algebra'', bm_description = ''Notes'', bm_slug = ''algebra'',
      bm_collection = 1\<rparr>"

definition example_db :: db where
  "example_db =
     \<lparr>Collection_objects = [\<lparr>cm_uuid = 1, cm_title = ''Library''\<rparr>],
      Bundle_objects =
        [example_bundle,
         \<lparr>bm_uuid = 11, bm_title = ''Empty'', bm_description = ''None yet'', bm_slug = ''empty'',
          bm_collection = 1\<rparr>],
      BundleVersion_objects = [example_version],
      Draft_objects = [example_draft],
      Content_store = Map.empty\<rparr>"

definition example_request :: version_request where
  "example_request bundle_uuid version_number =
     (if bundle_uuid = 10 \<and> version_number = 1
      then Inr \<lparr>vi_files = [(''a.txt'', \<lparr>fm_size = 5, fm_url = ''/a'', fm_hash_digest = ''ha''\<rparr>)],
                vi_links = []\<rparr>
      else Inl NotFound)"

section \<open>Lookups\<close>

lemma filter_Cons_member:
  "filter P rows = x # xs \<Longrightarrow> x \<in> set rows \<and> P x"
proof -
  assume "filter P rows = x # xs"
  then have "x \<in> set (filter P rows)" by simp
  then show ?thesis by simp
qed

lemma objects_get_DoesNotExist_iff:
  "objects_get P rows = Inl DoesNotExist \<longleftrightarrow> (\<forall>r\<in>set rows. \<not> P r)"
  by (auto simp: objects_get_def filter_empty_conv split: list.splits dest: filter_Cons_member)


lemma objects_get_Inr:
  "objects_get P rows = Inr r \<Longrightarrow> r \<in> set rows \<and> P r \<and> filter P rows = [r]"
  by (auto simp: objects_get_def split: list.splits dest: filter_Cons_member)




lemma except_DoesNotExist_Inr [simp]:
  "except_DoesNotExist e (Inr r) = Inr r"
  by (simp add: except_DoesNotExist_def)



lemma get_collection_Inr:
  "get_collection s u = Inr (r, s') \<Longrightarrow>
   s' = s \<and> (\<exists>c\<in>set (Collection_objects s). cm_uuid c = u \<and> r = data_from_collection c)"
  by (auto simp: get_collection_def except_DoesNotExist_def split: sum.splits if_splits dest: objects_get_Inr)




lemma get_bundle_Inr:
  "get_bundle s u = Inr (r, s') \<Longrightarrow>
   s' = s \<and> (\<exists>b\<in>set (Bundle_objects s). bm_uuid b = u \<and> r = data_from_bundle s b)"
  by (auto simp: get_bundle_def except_DoesNotExist_def split: sum.splits if_splits dest: objects_get_Inr)



lemma get_draft_Inr:
  "get_draft s u = Inr (r, s') \<Longrightarrow>
   s' = s \<and> (\<exists>d\<in>set (Draft_objects s). dm_uuid d = u \<and> r = data_from_draft s d)"
  by (auto simp: get_draft_def except_DoesNotExist_def split: sum.splits if_splits dest: objects_get_Inr)



section \<open>Latest version\<close>

lemma latest_fold_None:
  "foldl (\<lambda>acc v. case acc of
                       None \<Rightarrow> Some v
                     | Some w \<Rightarrow> if bvm_version_num w < bvm_version_num v then Some v else Some w)
       acc vs = None \<longleftrightarrow> acc = None \<and> vs = []"
  by (induction vs arbitrary: acc) (auto split: option.splits)

lemma latest_fold_Some:
  "foldl (\<lambda>acc v. case acc of
                       None \<Rightarrow> Some v
                     | Some w \<Rightarrow> if bvm_version_num w < bvm_version_num v then Some v else Some w)
       acc vs = Some v \<Longrightarrow>
   (acc = Some v \<or> v \<in> set vs)
   \<and> (\<forall>x\<in>set vs. bvm_version_num x \<le> bvm_version_num v)
   \<and> (\<forall>w. acc = Some w \<longrightarrow> bvm_version_num w \<le> bvm_version_num v)"
proof (induction vs arbitrary: acc)
  case Nil
  then show ?case by simp
next
  case (Cons a vs)
  let ?step = "\<lambda>acc v. case acc of
                       None \<Rightarrow> Some v
                     | Some w \<Rightarrow> if bvm_version_num w < bvm_version_num v then Some v else Some w"
  from Cons.prems have f: "foldl ?step (?step acc a) vs = Some v" by simp
  note ih = Cons.IH [OF f]
  show ?case
  proof (cases acc)
    case None
    with ih show ?thesis by auto
  next
    case (Some w)
    with ih show ?thesis by (auto split: if_splits)
  qed
qed

lemma latest_of_None: "latest_of vs = None \<longleftrightarrow> vs = []"
  by (simp add: latest_of_def latest_fold_None)

lemma latest_of_Some:
  "latest_of vs = Some v \<Longrightarrow> v \<in> set vs \<and> (\<forall>x\<in>set vs. bvm_version_num x \<le> bvm_version_num v)"
  using latest_fold_Some [of None vs v] by (simp add: latest_of_def)

lemma Bundle_get_bundle_version_None:
  "Bundle_get_bundle_version s b = None \<longleftrightarrow> (\<forall>v\<in>set (BundleVersion_objects s). bvm_bundle v \<noteq> bm_uuid b)"
  by (simp add: Bundle_get_bundle_version_def latest_of_None filter_empty_conv)

lemma Bundle_get_bundle_version_Some:
  "Bundle_get_bundle_version s b = Some v \<Longrightarrow>
   v \<in> set (BundleVersion_objects s) \<and> bvm_bundle v = bm_uuid b
   \<and> (\<forall>w\<in>set (BundleVersion_objects s). bvm_bundle w = bm_uuid b \<longrightarrow> bvm_version_num w \<le> bvm_version_num v)"
  using latest_of_Some [of "filter (\<lambda>v. bvm_bundle v = bm_uuid b) (BundleVersion_objects s)" v]
  by (simp add: Bundle_get_bundle_version_def)

lemma latest_version_data_from_bundle:
  "bun_latest_version (data_from_bundle s b) =
     (case Bundle_get_bundle_version s b of Some v \<Rightarrow> bvm_version_num v | None \<Rightarrow> 0)"
  by (simp add: data_from_bundle_def Let_def)

text \<open>
  Claim C8. The \<^verbatim>\<open>latest_version\<close> that \<^verbatim>\<open>get_bundle\<close> reports is 0 exactly when
  the bundle has no committed version (version numbers start at 1); when the bundle has
  a latest version, \<^verbatim>\<open>latest_version\<close> is its number, the greatest of the bundle's
  version numbers.
\<close>

theorem latest_version_zero_iff_no_version:
  assumes "get_bundle s u = Inr (r, s')"
    and "\<forall>v\<in>set (BundleVersion_objects s). 1 \<le> bvm_version_num v"
  shows "(bun_latest_version r = 0 \<longleftrightarrow> (\<forall>v\<in>set (BundleVersion_objects s). bvm_bundle v \<noteq> u))
    \<and> (\<forall>b\<in>set (Bundle_objects s). bm_uuid b = u \<longrightarrow>
          (\<forall>v. Bundle_get_bundle_version s b = Some v \<longrightarrow>
             bun_latest_version r = bvm_version_num v
             \<and> v \<in> set (BundleVersion_objects s) \<and> bvm_bundle v = u
             \<and> (\<forall>w\<in>set (BundleVersion_objects s).
                   bvm_bundle w = u \<longrightarrow> bvm_version_num w \<le> bvm_version_num v)))"
proof -
  from assms(1) obtain b where b: "b \<in> set (Bundle_objects s)" "bm_uuid b = u"
    and r: "r = data_from_bundle s b"
    using get_bundle_Inr by blast
  have zero: "bun_latest_version r = 0 \<longleftrightarrow> (\<forall>v\<in>set (BundleVersion_objects s). bvm_bundle v \<noteq> u)"
  proof (cases "Bundle_get_bundle_version s b")
    case None
    then show ?thesis
      using Bundle_get_bundle_version_None [of s b] b r
      by (simp add: latest_version_data_from_bundle)
  next
    case (Some v)
    from Bundle_get_bundle_version_Some [OF Some] have v: "v \<in> set (BundleVersion_objects s)"
      "bvm_bundle v = u" using b by simp_all
    with assms(2) have "1 \<le> bvm_version_num v" by blast
    then have "bun_latest_version r \<noteq> 0"
      using Some r by (simp add: latest_version_data_from_bundle)
    with v show ?thesis by blast
  qed
  have latest: "\<forall>b'\<in>set (Bundle_objects s). bm_uuid b' = u \<longrightarrow>
          (\<forall>v. Bundle_get_bundle_version s b' = Some v \<longrightarrow>
             bun_latest_version r = bvm_version_num v
             \<and> v \<in> set (BundleVersion_objects s) \<and> bvm_bundle v = u
             \<and> (\<forall>w\<in>set (BundleVersion_objects s).
                   bvm_bundle w = u \<longrightarrow> bvm_version_num w \<le> bvm_version_num v))"
  proof (intro ballI impI allI)
    fix b' v
    assume b': "b' \<in> set (Bundle_objects s)" "bm_uuid b' = u"
      and v: "Bundle_get_bundle_version s b' = Some v"
    have same: "Bundle_get_bundle_version s b = Bundle_get_bundle_version s b'"
      using b b' by (simp add: Bundle_get_bundle_version_def)
    with v have vb: "Bundle_get_bundle_version s b = Some v" by simp
    from Bundle_get_bundle_version_Some [OF vb] b vb r
    show "bun_latest_version r = bvm_version_num v
             \<and> v \<in> set (BundleVersion_objects s) \<and> bvm_bundle v = u
             \<and> (\<forall>w\<in>set (BundleVersion_objects s).
                   bvm_bundle w = u \<longrightarrow> bvm_version_num w \<le> bvm_version_num v)"
      by (simp add: latest_version_data_from_bundle)
  qed
  from zero latest show ?thesis by blast
qed

lemma example_latest_10: "bun_latest_version (data_from_bundle example_db example_bundle) = 1"
  by (simp add: data_from_bundle_def Bundle_get_bundle_version_def latest_of_def example_db_def
      example_bundle_def example_version_def)

text \<open>The claim at the small database: bundle 10 has version 1, bundle 11 has none.\<close>

theorem latest_version_zero_iff_no_version_witness:
  "(\<exists>r. get_bundle example_db 10 = Inr (r, example_db) \<and> bun_latest_version r = 1)
   \<and> (\<exists>r. get_bundle example_db 11 = Inr (r, example_db) \<and> bun_latest_version r = 0)"
proof -
  have vs: "\<forall>v\<in>set (BundleVersion_objects example_db). 1 \<le> bvm_version_num v"
    by (simp add: example_db_def example_version_def)
  obtain r10 where g10: "get_bundle example_db 10 = Inr (r10, example_db)"
    and r10: "r10 = data_from_bundle example_db example_bundle"
    by (simp add: get_bundle_def objects_get_def example_db_def example_bundle_def)
  obtain r11 where g11: "get_bundle example_db 11 = Inr (r11, example_db)"
    by (simp add: get_bundle_def objects_get_def example_db_def example_bundle_def)
  have "bun_latest_version r11 = 0 \<longleftrightarrow> (\<forall>v\<in>set (BundleVersion_objects example_db). bvm_bundle v \<noteq> 11)"
    using latest_version_zero_iff_no_version [OF g11 vs] by (rule conjunct1)
  then have "bun_latest_version r11 = 0"
    by (simp add: example_db_def example_version_def)
  moreover have "bun_latest_version r10 = 1"
    using r10 example_latest_10 by simp
  ultimately show ?thesis using g10 g11 by blast
qed

section \<open>The files of a draft\<close>

lemma dr_files_data_from_draft:
  "dr_files (data_from_draft s d) p =
     (case sd_files (staged_draft s d) p of
        None \<Rightarrow> None
      | Some file_info \<Rightarrow>
          Some \<lparr>bf_path = p, bf_size = fe_size file_info, bf_url = p,
                bf_hash_digest = fe_hash_digest file_info,
                df_modified = (files_to_overwrite (staged_draft s d) p \<noteq> None)\<rparr>)"
  by (simp add: data_from_draft_def Let_def)

lemma files_to_overwrite_staged_draft [simp]:
  "files_to_overwrite (staged_draft s d) = dm_staged_files d"
  by (simp add: staged_draft_def)

lemma draft_file_modified:
  "dr_files (data_from_draft s d) p = Some f \<Longrightarrow>
   df_modified f \<longleftrightarrow> dm_staged_files d p \<noteq> None"
  by (auto simp: dr_files_data_from_draft split: option.splits)

lemma draft_file_modified_Write:
  "dr_files (data_from_draft s d) p = Some f \<Longrightarrow>
   df_modified f \<longleftrightarrow> (\<exists>h n. dm_staged_files d p = Some (Write h n))"
  by (auto simp: dr_files_data_from_draft sd_files_def effective_files_def
      split: option.splits FileDiff.splits)

lemma draft_file_carried_over:
  "dm_staged_files d p = None \<Longrightarrow> sd_base_files (staged_draft s d) p = Some e \<Longrightarrow>
   \<exists>f. dr_files (data_from_draft s d) p = Some f \<and> \<not> df_modified f
        \<and> bf_hash_digest f = fe_hash_digest e \<and> bf_size f = fe_size e"
  by (simp add: dr_files_data_from_draft sd_files_def effective_files_def)

text \<open>
  Claim C3. For every draft that \<^verbatim>\<open>get_draft\<close> returns and every path in its file
  map, the entry's \<^verbatim>\<open>modified\<close> flag is true exactly when the path has a staged
  diff entry (which, for a path that is present, is a staged write); a path with no
  staged entry that the base snapshot has is present with \<^verbatim>\<open>modified\<close> false.
\<close>

theorem draft_file_modified_iff_staged:
  assumes "get_draft s u = Inr (r, s')"
  shows "\<exists>d\<in>set (Draft_objects s). dm_uuid d = u \<and> r = data_from_draft s d
     \<and> (\<forall>p f. dr_files r p = Some f \<longrightarrow>
           (df_modified f \<longleftrightarrow> dm_staged_files d p \<noteq> None)
           \<and> (df_modified f \<longleftrightarrow> (\<exists>h n. dm_staged_files d p = Some (Write h n))))
     \<and> (\<forall>p e. dm_staged_files d p = None \<and> sd_base_files (staged_draft s d) p = Some e \<longrightarrow>
           (\<exists>f. dr_files r p = Some f \<and> \<not> df_modified f))"
proof -
  from assms obtain d where d: "d \<in> set (Draft_objects s)" "dm_uuid d = u"
    and r: "r = data_from_draft s d"
    using get_draft_Inr by blast
  have m: "\<forall>p f. dr_files r p = Some f \<longrightarrow>
           (df_modified f \<longleftrightarrow> dm_staged_files d p \<noteq> None)
           \<and> (df_modified f \<longleftrightarrow> (\<exists>h n. dm_staged_files d p = Some (Write h n)))"
    using draft_file_modified draft_file_modified_Write r by blast
  have c: "\<forall>p e. dm_staged_files d p = None \<and> sd_base_files (staged_draft s d) p = Some e \<longrightarrow>
           (\<exists>f. dr_files r p = Some f \<and> \<not> df_modified f)"
    using draft_file_carried_over r by blast
  from d r m c show ?thesis by blast
qed

lemma example_staged_files:
  "dm_staged_files example_draft ''a.txt'' = None"
  "dm_staged_files example_draft ''b.txt'' = Some (Write ''hb'' 3)"
  "dm_staged_files example_draft ''c.txt'' = Some Delete"
  by (simp_all add: example_draft_def)

lemma example_base_files:
  "sd_base_files (staged_draft example_db example_draft) = bvm_files example_version"
  by (simp add: staged_draft_def base_snapshot_def example_db_def example_draft_def
      example_version_def)

lemma example_dr_files:
  "dr_files (data_from_draft example_db example_draft) ''a.txt'' =
     Some \<lparr>bf_path = ''a.txt'', bf_size = 5, bf_url = ''a.txt'', bf_hash_digest = ''ha'',
           df_modified = False\<rparr>"
  "dr_files (data_from_draft example_db example_draft) ''b.txt'' =
     Some \<lparr>bf_path = ''b.txt'', bf_size = 3, bf_url = ''b.txt'', bf_hash_digest = ''hb'',
           df_modified = True\<rparr>"
  "dr_files (data_from_draft example_db example_draft) ''c.txt'' = None"
  by (simp_all add: dr_files_data_from_draft sd_files_def effective_files_def example_base_files
      example_staged_files example_version_def)

text \<open>
  The claim at the draft of the small database: \<^verbatim>\<open>a.txt\<close> is carried over,
  \<^verbatim>\<open>b.txt\<close> is a staged write and \<^verbatim>\<open>c.txt\<close> is deleted.
\<close>

theorem draft_file_modified_iff_staged_witness:
  "\<exists>r. get_draft example_db 20 = Inr (r, example_db)
     \<and> (\<exists>f. dr_files r ''a.txt'' = Some f \<and> \<not> df_modified f)
     \<and> (\<exists>f. dr_files r ''b.txt'' = Some f \<and> df_modified f)
     \<and> dr_files r ''c.txt'' = None"
proof -
  have g: "get_draft example_db 20 = Inr (data_from_draft example_db example_draft, example_db)"
    by (simp add: get_draft_def objects_get_def example_db_def example_draft_def)
  from draft_file_modified_iff_staged [OF g]
  obtain d where d: "d \<in> set (Draft_objects example_db)"
    and m: "\<forall>p f. dr_files (data_from_draft example_db example_draft) p = Some f \<longrightarrow>
           (df_modified f \<longleftrightarrow> dm_staged_files d p \<noteq> None)
           \<and> (df_modified f \<longleftrightarrow> (\<exists>h n. dm_staged_files d p = Some (Write h n)))"
    by blast
  from d have "d = example_draft" by (simp add: example_db_def)
  with m example_dr_files(2) example_staged_files(2)
  have "\<exists>f. dr_files (data_from_draft example_db example_draft) ''b.txt'' = Some f \<and> df_modified f"
    by simp
  moreover have "\<exists>f. dr_files (data_from_draft example_db example_draft) ''a.txt'' = Some f \<and> \<not> df_modified f"
    using example_dr_files(1) by simp
  ultimately show ?thesis using g example_dr_files(3) by blast
qed

section \<open>The links of a draft\<close>

lemma dr_links_data_from_draft: "dr_links (data_from_draft s d) = Map.empty"
  by (simp add: data_from_draft_def Let_def)

lemma example_get_draft:
  "get_draft example_db 20 = Inr (data_from_draft example_db example_draft, example_db)"
  by (simp add: get_draft_def objects_get_def example_db_def example_draft_def)

lemma example_bun_drafts:
  "bun_drafts (data_from_bundle example_db example_bundle) ''studio_draft'' = Some 20"
  by (simp add: data_from_bundle_def Bundle_drafts_all_def dict_of_def Let_def example_db_def
      example_bundle_def example_draft_def)

lemma example_get_bundle:
  "get_bundle example_db 10 = Inr (data_from_bundle example_db example_bundle, example_db)"
  by (simp add: get_bundle_def objects_get_def example_db_def example_bundle_def)

text \<open>
  Claim C2, at a draft with a staged link. The draft of the small database stages the
  link \<^verbatim>\<open>lib\<close>, so the spec's effective links hold \<^verbatim>\<open>lib\<close> with the closure the
  resolver computes for the staged target; yet the links that \<^verbatim>\<open>get_draft\<close> and
  \<^verbatim>\<open>get_bundle_links\<close> return for it are the empty map.
\<close>

theorem draft_links_empty_despite_staged_link:
  "get_draft example_db 20 = Inr (data_from_draft example_db example_draft, example_db)
   \<and> dr_links (data_from_draft example_db example_draft) = Map.empty
   \<and> get_bundle_links example_db rq 10 (Some ''studio_draft'') = Inr (Map.empty, example_db)
   \<and> spec_effective_links resolve_indirect (staged_draft example_db example_draft) ''lib'' =
       Some \<lparr>ld_name = ''lib'', ld_direct = \<lparr>lr_bundle_uuid = 11, lr_version = 1\<rparr>,
             ld_indirect = resolve_indirect \<lparr>lr_bundle_uuid = 11, lr_version = 1\<rparr>,
             dld_modified = True\<rparr>"
proof -
  have l: "get_bundle_links example_db rq 10 (Some ''studio_draft'') = Inr (Map.empty, example_db)"
    by (simp add: get_bundle_links_def example_get_bundle uses_draft_def example_bun_drafts
        example_get_draft dr_links_data_from_draft)
  have e: "spec_effective_links resolve_indirect (staged_draft example_db example_draft) ''lib'' =
       Some \<lparr>ld_name = ''lib'', ld_direct = \<lparr>lr_bundle_uuid = 11, lr_version = 1\<rparr>,
             ld_indirect = resolve_indirect \<lparr>lr_bundle_uuid = 11, lr_version = 1\<rparr>,
             dld_modified = True\<rparr>"
    by (simp add: spec_effective_links_def staged_draft_def example_draft_def Let_def)
  from example_get_draft dr_links_data_from_draft l e show ?thesis by blast
qed

section \<open>Reading a bundle version\<close>

lemma get_bundle_version_zero: "get_bundle_version rq u 0 = Inr None"
  by (simp add: get_bundle_version_def)

lemma get_bundle_version_files_zero: "get_bundle_version_files rq u 0 = Inr []"
  by (simp add: get_bundle_version_files_def)

lemma module_request_raises:
  "n \<noteq> 0 \<Longrightarrow> get_bundle_version module_request u n = Inl NameError
     \<and> get_bundle_version_files module_request u n = Inl NameError"
  by (simp add: get_bundle_version_def get_bundle_version_files_def module_request_def)

lemma no_version_latest_zero:
  assumes "get_bundle s u = Inr (bundle, s')"
    and "\<forall>v\<in>set (BundleVersion_objects s). bvm_bundle v \<noteq> u"
  shows "bun_latest_version bundle = 0"
proof -
  from assms(1) obtain b where b: "bm_uuid b = u" "bundle = data_from_bundle s b"
    using get_bundle_Inr by blast
  with assms(2) have "Bundle_get_bundle_version s b = None"
    by (simp add: Bundle_get_bundle_version_None)
  with b show ?thesis by (simp add: latest_version_data_from_bundle)
qed

text \<open>
  Claim C4, as stated, fails in both of its cases. At version 0,
  \<^verbatim>\<open>get_bundle_version(bundle_uuid, 0)\<close> returns \<^verbatim>\<open>None\<close> and raises nothing,
  and \<^verbatim>\<open>get_bundle_version_files\<close> returns the empty list, whatever the request
  would answer. At version 2 of bundle 10, whose latest version is 1, the call as the
  module stands raises \<^verbatim>\<open>NameError\<close>, which is not a \<^verbatim>\<open>NotFound\<close> error.
\<close>

theorem get_bundle_version_zero_counterexample:
  "get_bundle_version example_request 10 0 = Inr None
   \<and> \<not> (\<exists>e. get_bundle_version example_request 10 0 = Inl e)
   \<and> get_bundle_version_files example_request 10 0 = Inr []
   \<and> get_bundle_version module_request 10 0 = Inr None
   \<and> bun_latest_version (data_from_bundle example_db example_bundle) = 1
   \<and> get_bundle_version module_request 10 2 = Inl NameError
   \<and> get_bundle_version_files module_request 10 2 = Inl NameError"
proof -
  have "(2::int) \<noteq> 0" by simp
  from module_request_raises [OF this, of 10] example_latest_10 show ?thesis
    by (simp add: get_bundle_version_zero get_bundle_version_files_zero)
qed

text \<open>
  Claim C4, amended. Fetching version 0 does not fail: for every bundle uuid and every
  request, \<^verbatim>\<open>get_bundle_version\<close> returns \<^verbatim>\<open>None\<close> and
  \<^verbatim>\<open>get_bundle_version_files\<close> returns the empty list. In particular, for a bundle
  with no committed version the \<^verbatim>\<open>latest_version\<close> that \<^verbatim>\<open>get_bundle\<close> reports
  is 0, and fetching that version gives \<^verbatim>\<open>None\<close> and the empty list. (Nothing is
  stated for a version number beyond the latest version.)
\<close>

theorem get_bundle_version_zero_returns_None:
  "get_bundle_version rq u 0 = Inr None
   \<and> get_bundle_version_files rq u 0 = Inr []
   \<and> (\<forall>bundle s'. get_bundle s u = Inr (bundle, s')
          \<and> (\<forall>v\<in>set (BundleVersion_objects s). bvm_bundle v \<noteq> u) \<longrightarrow>
            bun_latest_version bundle = 0
            \<and> get_bundle_version rq u (bun_latest_version bundle) = Inr None
            \<and> get_bundle_version_files rq u (bun_latest_version bundle) = Inr [])"
proof -
  have l: "\<forall>bundle s'. get_bundle s u = Inr (bundle, s')
          \<and> (\<forall>v\<in>set (BundleVersion_objects s). bvm_bundle v \<noteq> u) \<longrightarrow>
            bun_latest_version bundle = 0
            \<and> get_bundle_version rq u (bun_latest_version bundle) = Inr None
            \<and> get_bundle_version_files rq u (bun_latest_version bundle) = Inr []"
  proof (intro allI impI)
    fix bd s2
    assume a: "get_bundle s u = Inr (bd, s2)
          \<and> (\<forall>v\<in>set (BundleVersion_objects s). bvm_bundle v \<noteq> u)"
    then have z: "bun_latest_version bd = 0"
      using no_version_latest_zero by blast
    show "bun_latest_version bd = 0
            \<and> get_bundle_version rq u (bun_latest_version bd) = Inr None
            \<and> get_bundle_version_files rq u (bun_latest_version bd) = Inr []"
      unfolding z by (simp add: get_bundle_version_zero get_bundle_version_files_zero)
  qed
  from get_bundle_version_zero [of rq u] get_bundle_version_files_zero [of rq u] l
  show ?thesis by blast
qed

text \<open>
  The amended claim at the small database: bundle 11 has no committed version, its
  latest version is 0, and fetching that version returns \<^verbatim>\<open>None\<close> and the empty
  list.
\<close>

theorem get_bundle_version_zero_returns_None_witness:
  "\<exists>r. get_bundle example_db 11 = Inr (r, example_db)
     \<and> bun_latest_version r = 0
     \<and> get_bundle_version example_request 11 (bun_latest_version r) = Inr None
     \<and> get_bundle_version_files example_request 11 (bun_latest_version r) = Inr []"
proof -
  obtain r where g: "get_bundle example_db 11 = Inr (r, example_db)"
    by (simp add: get_bundle_def objects_get_def example_db_def example_bundle_def)
  have nv: "\<forall>v\<in>set (BundleVersion_objects example_db). bvm_bundle v \<noteq> 11"
    by (simp add: example_db_def example_version_def)
  from get_bundle_version_zero_returns_None
    [of example_request 11 example_db, THEN conjunct2, THEN conjunct2] g nv
  have "bun_latest_version r = 0
     \<and> get_bundle_version example_request 11 (bun_latest_version r) = Inr None
     \<and> get_bundle_version_files example_request 11 (bun_latest_version r) = Inr []"
    by blast
  with g show ?thesis by blast
qed

section \<open>Updating a bundle\<close>

lemma example_get_collection:
  "get_collection example_db 1 = Inr (\<lparr>col_uuid = 1, col_title = ''Library''\<rparr>, example_db)"
  by (simp add: get_collection_def objects_get_def example_db_def data_from_collection_def)

lemma example_bundle_lookup:
  "objects_get (\<lambda>b. bm_uuid b = 10) (Bundle_objects example_db) = Inr example_bundle"
  by (simp add: objects_get_def example_db_def example_bundle_def)

lemma py_str_not_UUID: "\<not> isinstance_UUID (py_str v)"
  by (cases v) simp_all

text \<open>
  Claim C6, at a call that moves a bundle to an existing collection. Bundle 10 and
  collection 1 exist, yet \<^verbatim>\<open>update_bundle(bundle_uuid, collection_uuid=...)\<close> raises
  \<^verbatim>\<open>AssertionError\<close>: the value is converted with \<^verbatim>\<open>str\<close> and then asserted
  to be a \<^verbatim>\<open>UUID\<close>. A call with the title alone succeeds, and a call with a field
  outside the four is refused with \<^verbatim>\<open>ValueError\<close>.
\<close>

theorem update_bundle_collection_uuid_raises:
  "get_bundle example_db 10 = Inr (data_from_bundle example_db example_bundle, example_db)
   \<and> get_collection example_db 1 = Inr (\<lparr>col_uuid = 1, col_title = ''Library''\<rparr>, example_db)
   \<and> update_bundle example_db 10 [(''collection_uuid'', PyUUID 1)] = Inl AssertionError
   \<and> (\<exists>r s'. update_bundle example_db 10 [(''title'', PyStr ''Geometry'')] = Inr (r, s')
               \<and> bun_title r = ''Geometry'')
   \<and> update_bundle example_db 10 [(''colour'', PyStr ''red'')] = Inl ValueError"
proof -
  have a: "update_bundle example_db 10 [(''collection_uuid'', PyUUID 1)] = Inl AssertionError"
    by (simp add: update_bundle_def example_bundle_lookup set_str_field_def)
  have t: "\<exists>r s'. update_bundle example_db 10 [(''title'', PyStr ''Geometry'')] = Inr (r, s')
               \<and> bun_title r = ''Geometry''"
    by (simp add: update_bundle_def example_bundle_lookup set_str_field_def pop_def
        update_bundle_save_def data_from_bundle_def Let_def)
  have v: "update_bundle example_db 10 [(''colour'', PyStr ''red'')] = Inl ValueError"
    by (simp add: update_bundle_def example_bundle_lookup set_str_field_def pop_def
        update_bundle_save_def)
  from example_get_bundle example_get_collection a t v show ?thesis by blast
qed

section \<open>A draft name that the bundle does not have\<close>















section \<open>Getting or creating a draft\<close>


lemma draft_lookup_none:
  "(\<forall>d\<in>set (Draft_objects s). \<not> (dm_bundle d = u \<and> dm_name d = n)) \<Longrightarrow>
   objects_get (\<lambda>x. dm_bundle x = u \<and> dm_name x = n) (Draft_objects s) = Inl DoesNotExist"
  by (simp add: objects_get_DoesNotExist_iff)


lemma Draft_save_fresh:
  assumes "\<forall>d\<in>set (Draft_objects s). \<not> (dm_bundle d = dm_bundle x \<and> dm_name d = dm_name x)"
    and "dm_uuid x \<notin> dm_uuid ` set (Draft_objects s)"
  shows "Draft_save s x = Inr (s\<lparr>Draft_objects := Draft_objects s @ [x]\<rparr>)"
  using assms by (auto simp: Draft_save_def)

lemma Draft_save_Inr:
  "Draft_save s x = Inr s' \<Longrightarrow>
   s' = s\<lparr>Draft_objects := Draft_objects s @ [x]\<rparr>
   \<and> (\<forall>d\<in>set (Draft_objects s). \<not> (dm_bundle d = dm_bundle x \<and> dm_name d = dm_name x))
   \<and> dm_uuid x \<notin> dm_uuid ` set (Draft_objects s)"
  by (auto simp: Draft_save_def image_iff split: if_splits)

lemma Draft_save_duplicate:
  assumes "d \<in> set (Draft_objects s)" and "dm_bundle d = dm_bundle x" and "dm_name d = dm_name x"
  shows "Draft_save s x = Inl IntegrityError"
proof -
  have "(dm_bundle x, dm_name x) = (dm_bundle d, dm_name d)"
    using assms(2,3) by simp
  then have "(dm_bundle x, dm_name x) \<in> (\<lambda>d. (dm_bundle d, dm_name d)) ` set (Draft_objects s)"
    using assms(1) by (simp only: image_eqI)
  then show ?thesis by (simp add: Draft_save_def)
qed

lemma new_draft_fields [simp]:
  "dm_uuid (new_draft s f now b n) = f"
  "dm_name (new_draft s f now b n) = n"
  "dm_bundle (new_draft s f now b n) = bm_uuid b"
  "dm_staged_files (new_draft s f now b n) = Map.empty"
  "dm_staged_links (new_draft s f now b n) = Map.empty"
  by (simp_all add: new_draft_def)

lemma get_or_create_new:
  assumes "objects_get (\<lambda>b. bm_uuid b = u) (Bundle_objects s) = Inr b"
    and "\<forall>d\<in>set (Draft_objects s). \<not> (dm_bundle d = bm_uuid b \<and> dm_name d = n)"
    and "f \<notin> dm_uuid ` set (Draft_objects s)"
  shows "get_or_create_bundle_draft s f now u n =
     Inr (data_from_draft (s\<lparr>Draft_objects := Draft_objects s @ [new_draft s f now b n]\<rparr>)
            (new_draft s f now b n),
          s\<lparr>Draft_objects := Draft_objects s @ [new_draft s f now b n]\<rparr>)"
proof -
  have l: "objects_get (\<lambda>x. dm_bundle x = bm_uuid b \<and> dm_name x = n) (Draft_objects s) = Inl DoesNotExist"
    using assms(2) by (rule draft_lookup_none)
  have sv: "Draft_save s (new_draft s f now b n) =
      Inr (s\<lparr>Draft_objects := Draft_objects s @ [new_draft s f now b n]\<rparr>)"
    using assms(2,3) by (intro Draft_save_fresh) simp_all
  show ?thesis
    using assms(1) l sv by (simp add: get_or_create_bundle_draft_def Let_def)
qed

lemma get_or_create_Inr:
  assumes "get_or_create_bundle_draft s f now u n = Inr (r, s')"
  shows "\<exists>b. objects_get (\<lambda>b. bm_uuid b = u) (Bundle_objects s) = Inr b
     \<and> ((\<exists>d. objects_get (\<lambda>x. dm_bundle x = bm_uuid b \<and> dm_name x = n) (Draft_objects s) = Inr d
              \<and> r = data_from_draft s d \<and> s' = s)
         \<or> (objects_get (\<lambda>x. dm_bundle x = bm_uuid b \<and> dm_name x = n) (Draft_objects s) = Inl DoesNotExist
             \<and> Draft_save s (new_draft s f now b n) = Inr s'
             \<and> r = data_from_draft s' (new_draft s f now b n)))"
  using assms
  by (auto simp: get_or_create_bundle_draft_def except_DoesNotExist_def Let_def
      split: sum.splits if_splits)





lemma example_db_names_unique: "draft_names_unique example_db"
  by (simp add: draft_names_unique_def example_db_def)



section \<open>Draft names stay unique\<close>

lemma state_after_Inr: "state_after r = Inr s' \<longleftrightarrow> (\<exists>x. r = Inr (x, s'))"
  by (auto simp: state_after_def split: sum.splits)

lemma create_collection_drafts:
  "create_collection s f t = Inr (r, s') \<Longrightarrow> Draft_objects s' = Draft_objects s"
  by (auto simp: create_collection_def Let_def split: if_splits)

lemma update_collection_drafts:
  "update_collection s u t = Inr (r, s') \<Longrightarrow> Draft_objects s' = Draft_objects s"
  by (auto simp: update_collection_def Let_def split: sum.splits)

lemma create_bundle_drafts:
  "create_bundle s f c slug t descr = Inr (r, s') \<Longrightarrow> Draft_objects s' = Draft_objects s"
  by (auto simp: create_bundle_def Let_def split: sum.splits if_splits)

lemma update_bundle_save_drafts:
  "update_bundle_save s u b kw = Inr (r, s') \<Longrightarrow> Draft_objects s' = Draft_objects s"
  by (auto simp: update_bundle_save_def Let_def split: if_splits)

lemma update_bundle_drafts:
  "update_bundle s u kw = Inr (r, s') \<Longrightarrow> Draft_objects s' = Draft_objects s"
  by (auto simp: update_bundle_def Let_def
      split: sum.splits prod.splits option.splits if_splits dest: update_bundle_save_drafts)

lemma delete_bundles_unique:
  "draft_names_unique s \<Longrightarrow> draft_names_unique (delete_bundles s doomed)"
  by (simp add: draft_names_unique_def delete_bundles_def Let_def distinct_map_filter)

lemma delete_bundle_unique:
  "draft_names_unique s \<Longrightarrow> delete_bundle s u = Inr (r, s') \<Longrightarrow> draft_names_unique s'"
  by (auto simp: delete_bundle_def split: sum.splits dest: delete_bundles_unique)

lemma draft_names_unique_Collection_update:
  "draft_names_unique (s\<lparr>Collection_objects := cs\<rparr>) = draft_names_unique s"
  by (simp add: draft_names_unique_def)

lemma delete_collection_unique:
  "draft_names_unique s \<Longrightarrow> delete_collection s u = Inr (r, s') \<Longrightarrow> draft_names_unique s'"
  by (auto simp: delete_collection_def draft_names_unique_Collection_update
      split: sum.splits dest: delete_bundles_unique)

lemma get_or_create_unique:
  assumes "draft_names_unique s" and "get_or_create_bundle_draft s f now u n = Inr (r, s')"
  shows "draft_names_unique s'"
proof -
  from get_or_create_Inr [OF assms(2)] obtain b where
    c: "(\<exists>d. objects_get (\<lambda>x. dm_bundle x = bm_uuid b \<and> dm_name x = n) (Draft_objects s) = Inr d
              \<and> r = data_from_draft s d \<and> s' = s)
         \<or> (objects_get (\<lambda>x. dm_bundle x = bm_uuid b \<and> dm_name x = n) (Draft_objects s) = Inl DoesNotExist
             \<and> Draft_save s (new_draft s f now b n) = Inr s'
             \<and> r = data_from_draft s' (new_draft s f now b n))"
    by blast
  from c show ?thesis
  proof
    assume "\<exists>d. objects_get (\<lambda>x. dm_bundle x = bm_uuid b \<and> dm_name x = n) (Draft_objects s) = Inr d
              \<and> r = data_from_draft s d \<and> s' = s"
    with assms(1) show ?thesis by blast
  next
    assume n: "objects_get (\<lambda>x. dm_bundle x = bm_uuid b \<and> dm_name x = n) (Draft_objects s) = Inl DoesNotExist
             \<and> Draft_save s (new_draft s f now b n) = Inr s'
             \<and> r = data_from_draft s' (new_draft s f now b n)"
    let ?d = "new_draft s f now b n"
    from n have sv: "Draft_save s ?d = Inr s'" by blast
    from Draft_save_Inr [OF sv] have s': "s' = s\<lparr>Draft_objects := Draft_objects s @ [?d]\<rparr>"
      and fresh: "\<forall>d\<in>set (Draft_objects s). \<not> (dm_bundle d = dm_bundle ?d \<and> dm_name d = dm_name ?d)"
      by blast+
    from fresh have "(dm_bundle ?d, dm_name ?d) \<notin> (\<lambda>d. (dm_bundle d, dm_name d)) ` set (Draft_objects s)"
      by (auto simp: image_iff)
    with assms(1) show ?thesis
      by (simp add: draft_names_unique_def s')
  qed
qed

lemma get_bundle_files_dict_state:
  "get_bundle_files_dict s rq u use_draft = Inr (r, s') \<Longrightarrow> s' = s"
  by (auto simp: get_bundle_files_dict_def Let_def
      split: sum.splits prod.splits if_splits dest!: get_bundle_Inr get_draft_Inr)

lemma get_bundle_links_state:
  "get_bundle_links s rq u use_draft = Inr (r, s') \<Longrightarrow> s' = s"
  by (auto simp: get_bundle_links_def Let_def
      split: sum.splits prod.splits if_splits dest!: get_bundle_Inr get_draft_Inr)

lemma map_key_update_row:
  assumes "filter (\<lambda>d. dm_uuid d = u) xs = [draft]"
    and "dm_bundle draft' = dm_bundle draft" and "dm_name draft' = dm_name draft"
  shows "map (\<lambda>d. (dm_bundle d, dm_name d)) (map (\<lambda>d. if dm_uuid d = u then draft' else d) xs)
         = map (\<lambda>d. (dm_bundle d, dm_name d)) xs"
proof -
  have "\<forall>d\<in>set xs. dm_uuid d = u \<longrightarrow> d = draft"
  proof (intro ballI impI)
    fix d assume "d \<in> set xs" "dm_uuid d = u"
    then have "d \<in> set (filter (\<lambda>d. dm_uuid d = u) xs)" by simp
    with assms(1) show "d = draft" by simp
  qed
  with assms(2,3) show ?thesis by (simp add: comp_def)
qed

lemma DraftRepo_update_unique:
  assumes "draft_names_unique s" and "DraftRepo_update s H now u files = Inr (r, s')"
  shows "draft_names_unique s'"
proof -
  from assms(2) obtain draft where
    g: "objects_get (\<lambda>d. dm_uuid d = u) (Draft_objects s) = Inr draft"
    by (auto simp: DraftRepo_update_def except_DoesNotExist_def split: sum.splits if_splits)
  obtain store staged where
    f: "foldl (stage_file H) (Content_store s, dm_staged_files draft) files = (store, staged)"
    by (cases "foldl (stage_file H) (Content_store s, dm_staged_files draft) files") blast
  let ?draft' = "draft\<lparr>dm_staged_files := staged, dm_updated_at := now\<rparr>"
  from assms(2) g f have s': "Draft_objects s' =
      map (\<lambda>d. if dm_uuid d = u then ?draft' else d) (Draft_objects s)"
    by (auto simp: DraftRepo_update_def Let_def)
  from objects_get_Inr [OF g] have fl: "filter (\<lambda>d. dm_uuid d = u) (Draft_objects s) = [draft]"
    by simp
  have "map (\<lambda>d. (dm_bundle d, dm_name d)) (Draft_objects s')
        = map (\<lambda>d. (dm_bundle d, dm_name d)) (Draft_objects s)"
    unfolding s' by (rule map_key_update_row [OF fl]) simp_all
  with assms(1) show ?thesis by (simp add: draft_names_unique_def)
qed

lemma write_draft_file_unique:
  "draft_names_unique s \<Longrightarrow> write_draft_file s H now u p c = Inr (r, s') \<Longrightarrow> draft_names_unique s'"
  by (auto simp: write_draft_file_def split: sum.splits dest: DraftRepo_update_unique)

lemma run_unique:
  assumes "draft_names_unique s" and "run rq H s operation = Inr s'"
  shows "draft_names_unique s'"
proof (cases operation)
  case (GetCollection u)
  with assms show ?thesis by (auto simp: state_after_Inr dest!: get_collection_Inr)
next
  case (CreateCollection f t)
  with assms show ?thesis
    by (auto simp: state_after_Inr draft_names_unique_def dest!: create_collection_drafts)
next
  case (UpdateCollection u t)
  with assms show ?thesis
    by (auto simp: state_after_Inr draft_names_unique_def dest!: update_collection_drafts)
next
  case (DeleteCollection u)
  with assms show ?thesis by (auto simp: state_after_Inr dest: delete_collection_unique)
next
  case (GetBundle u)
  with assms show ?thesis by (auto simp: state_after_Inr dest!: get_bundle_Inr)
next
  case (CreateBundle f c slug t descr)
  with assms show ?thesis
    by (auto simp: state_after_Inr draft_names_unique_def dest!: create_bundle_drafts)
next
  case (UpdateBundle u kw)
  with assms show ?thesis
    by (auto simp: state_after_Inr draft_names_unique_def dest!: update_bundle_drafts)
next
  case (DeleteBundle u)
  with assms show ?thesis by (auto simp: state_after_Inr dest: delete_bundle_unique)
next
  case (GetDraft u)
  with assms show ?thesis by (auto simp: state_after_Inr dest!: get_draft_Inr)
next
  case (GetOrCreateBundleDraft f now u n)
  with assms show ?thesis by (auto simp: state_after_Inr dest: get_or_create_unique)
next
  case (GetBundleFilesDict u use_draft)
  with assms show ?thesis by (auto simp: state_after_Inr dest!: get_bundle_files_dict_state)
next
  case (GetBundleLinks u use_draft)
  with assms show ?thesis by (auto simp: state_after_Inr dest!: get_bundle_links_state)
next
  case (WriteDraftFile now u p c)
  with assms show ?thesis by (auto simp: state_after_Inr dest: write_draft_file_unique)
qed

lemma get_or_create_keeps_existing:
  assumes "d \<in> set (Draft_objects s)" and "dm_bundle d = u" and "dm_name d = n"
    and "get_or_create_bundle_draft s f now u n = Inr (r, s')"
  shows "s' = s"
proof -
  from get_or_create_Inr [OF assms(4)] obtain b where
    b: "objects_get (\<lambda>b. bm_uuid b = u) (Bundle_objects s) = Inr b"
    and c: "(\<exists>d. objects_get (\<lambda>x. dm_bundle x = bm_uuid b \<and> dm_name x = n) (Draft_objects s) = Inr d
              \<and> r = data_from_draft s d \<and> s' = s)
         \<or> (objects_get (\<lambda>x. dm_bundle x = bm_uuid b \<and> dm_name x = n) (Draft_objects s) = Inl DoesNotExist
             \<and> Draft_save s (new_draft s f now b n) = Inr s'
             \<and> r = data_from_draft s' (new_draft s f now b n))"
    by blast
  from b have bu: "bm_uuid b = u" using objects_get_Inr by fastforce
  have "objects_get (\<lambda>x. dm_bundle x = bm_uuid b \<and> dm_name x = n) (Draft_objects s) \<noteq> Inl DoesNotExist"
    using assms(1,2,3) bu by (auto simp: objects_get_DoesNotExist_iff)
  with c show ?thesis by blast
qed

text \<open>
  Claim C9. The operations keep draft names unique within a bundle: if no two drafts of
  a bundle share a name before an operation, none do after it. Saving a second draft
  with the bundle and name of a stored one is refused by the database, and
  \<^verbatim>\<open>get_or_create_bundle_draft\<close> for a bundle and name that a stored draft has leaves
  the database as it is.
\<close>

theorem draft_names_unique_preserved:
  "(draft_names_unique s \<and> run rq H s operation = Inr s' \<longrightarrow> draft_names_unique s')
   \<and> (\<forall>d\<in>set (Draft_objects s). dm_bundle d = dm_bundle x \<and> dm_name d = dm_name x \<longrightarrow>
         Draft_save s x = Inl IntegrityError)
   \<and> (\<forall>d\<in>set (Draft_objects s). \<forall>r s2.
         get_or_create_bundle_draft s f now (dm_bundle d) (dm_name d) = Inr (r, s2) \<longrightarrow> s2 = s)"
proof -
  have a: "draft_names_unique s \<and> run rq H s operation = Inr s' \<longrightarrow> draft_names_unique s'"
    using run_unique by blast
  have b: "\<forall>d\<in>set (Draft_objects s). dm_bundle d = dm_bundle x \<and> dm_name d = dm_name x \<longrightarrow>
         Draft_save s x = Inl IntegrityError"
    using Draft_save_duplicate by blast
  have c: "\<forall>d\<in>set (Draft_objects s). \<forall>r s2.
         get_or_create_bundle_draft s f now (dm_bundle d) (dm_name d) = Inr (r, s2) \<longrightarrow> s2 = s"
    using get_or_create_keeps_existing by blast
  from a b c show ?thesis by blast
qed

lemma example_run_create:
  "run example_request (\<lambda>bs. []) example_db (GetOrCreateBundleDraft 21 7 10 ''review'') =
     Inr (example_db\<lparr>Draft_objects :=
            [example_draft, new_draft example_db 21 7 example_bundle ''review'']\<rparr>)"
proof -
  have none: "\<forall>d\<in>set (Draft_objects example_db).
      \<not> (dm_bundle d = bm_uuid example_bundle \<and> dm_name d = ''review'')"
    by (simp add: example_db_def example_draft_def)
  have fresh: "21 \<notin> dm_uuid ` set (Draft_objects example_db)"
    by (simp add: example_db_def example_draft_def)
  have ds: "Draft_objects example_db @ [new_draft example_db 21 7 example_bundle ''review'']
      = [example_draft, new_draft example_db 21 7 example_bundle ''review'']"
    by (simp add: example_db_def)
  from get_or_create_new [OF example_bundle_lookup none fresh, of 7] ds
  show ?thesis by (simp add: state_after_def)
qed

text \<open>
  The claim at the small database: creating the draft \<^verbatim>\<open>review\<close> of bundle 10
  keeps the names unique, and saving another \<^verbatim>\<open>studio_draft\<close> for bundle 10 is
  refused.
\<close>

theorem draft_names_unique_preserved_witness:
  "draft_names_unique example_db
   \<and> (\<exists>s'. run example_request (\<lambda>bs. []) example_db (GetOrCreateBundleDraft 21 7 10 ''review'') = Inr s'
           \<and> length (Draft_objects s') = 2 \<and> draft_names_unique s')
   \<and> Draft_save example_db (new_draft example_db 21 7 example_bundle ''studio_draft'')
       = Inl IntegrityError"
proof -
  let ?s' = "example_db\<lparr>Draft_objects :=
            [example_draft, new_draft example_db 21 7 example_bundle ''review'']\<rparr>"
  let ?x = "new_draft example_db 21 7 example_bundle ''studio_draft''"
  note t = draft_names_unique_preserved
    [of example_db example_request "\<lambda>bs. []" "GetOrCreateBundleDraft 21 7 10 ''review''" ?s' ?x]
  have u: "draft_names_unique ?s'"
    using t [THEN conjunct1] example_db_names_unique example_run_create by blast
  have d: "example_draft \<in> set (Draft_objects example_db)"
    "dm_bundle example_draft = dm_bundle ?x \<and> dm_name example_draft = dm_name ?x"
    by (simp_all add: example_db_def example_draft_def example_bundle_def)
  have i: "Draft_save example_db ?x = Inl IntegrityError"
    using t [THEN conjunct2, THEN conjunct1] d by blast
  have l: "length (Draft_objects ?s') = 2" by simp
  from example_db_names_unique example_run_create u l i show ?thesis by blast
qed

section \<open>Base64 round trip\<close>

lemma digits4:
  fixes n q1 q2 q3 r0 r1 r2 :: nat
  assumes "n = q1 * 64 + r0" "q1 = q2 * 64 + r1" "q2 = q3 * 64 + r2"
  shows "q3 * 262144 + r2 * 4096 + r1 * 64 + r0 = n"
  using assms by simp

lemma sextets_of:
  fixes n :: nat
  shows "(n div 262144) * 262144 + (n div 4096 mod 64) * 4096 + (n div 64 mod 64) * 64 + n mod 64 = n"
proof -
  have a: "n = (n div 64) * 64 + n mod 64" by simp
  have "n div 64 div 64 = n div (64 * 64)" by (simp only: div_mult2_eq)
  then have e1: "n div 64 div 64 = n div 4096" by simp
  have "n div 4096 div 64 = n div (4096 * 64)" by (simp only: div_mult2_eq)
  then have e2: "n div 4096 div 64 = n div 262144" by simp
  have b: "n div 64 = (n div 4096) * 64 + n div 64 mod 64"
    using div_mult_mod_eq [of "n div 64" 64] e1 by simp
  have c: "n div 4096 = (n div 262144) * 64 + n div 4096 mod 64"
    using div_mult_mod_eq [of "n div 4096" 64] e2 by simp
  from a b c show ?thesis by (rule digits4)
qed

lemma octets_of:
  fixes a b c :: nat
  assumes "b < 256" "c < 256"
  shows "(a * 65536 + b * 256 + c) div 65536 = a"
    and "(a * 65536 + b * 256 + c) div 256 mod 256 = b"
    and "(a * 65536 + b * 256 + c) mod 256 = c"
proof -
  have n: "a * 65536 + b * 256 + c = (a * 256 + b) * 256 + c" by simp
  have d: "((a * 256 + b) * 256 + c) div 256 = a * 256 + b" using assms by simp
  have "((a * 256 + b) * 256 + c) mod 256 = c mod 256" by (rule mod_mult_self3)
  then have m: "((a * 256 + b) * 256 + c) mod 256 = c" using assms(2) by (simp only: mod_less)
  have e: "(a * 256 + b) mod 256 = b" using assms by simp
  show "(a * 65536 + b * 256 + c) div 256 mod 256 = b"
    by (simp only: n d e)
  show "(a * 65536 + b * 256 + c) mod 256 = c"
    by (simp only: n m)
  show "(a * 65536 + b * 256 + c) div 65536 = a"
    using assms by simp
qed

lemma sextet_top:
  fixes a b c :: nat
  assumes "a < 256" "b < 256" "c < 256"
  shows "(a * 65536 + b * 256 + c) div 262144 < 64"
proof -
  have "a * 65536 + b * 256 + c < 64 * 262144" using assms by simp
  then show ?thesis by (simp only: div_less_iff_less_mult zero_less_numeral)
qed

lemma pair_arith:
  fixes a b :: nat
  assumes "a < 256" "b < 256"
  defines "n \<equiv> a * 256 + b"
  shows "n div 1024 < 64"
    and "(n div 1024 * 4096 + n div 16 mod 64 * 64 + n mod 16 * 4) div 1024 = a"
    and "(n div 1024 * 4096 + n div 16 mod 64 * 64 + n mod 16 * 4) div 4 mod 256 = b"
proof -
  have lt: "n < 64 * 1024" using assms(1,2) by (simp add: n_def)
  then show "n div 1024 < 64" by (simp only: div_less_iff_less_mult zero_less_numeral)
  have x: "n = (n div 16) * 16 + n mod 16" by simp
  have "n div 16 div 64 = n div (16 * 64)" by (simp only: div_mult2_eq)
  then have e: "n div 16 div 64 = n div 1024" by simp
  have y: "n div 16 = (n div 1024) * 64 + n div 16 mod 64"
    using div_mult_mod_eq [of "n div 16" 64] e by simp
  have m: "n div 1024 * 4096 + n div 16 mod 64 * 64 + n mod 16 * 4 = n * 4"
  proof -
    have "n * 4 = ((n div 16) * 16 + n mod 16) * 4" using x by simp
    also have "\<dots> = (((n div 1024) * 64 + n div 16 mod 64) * 16 + n mod 16) * 4" using y by simp
    finally show ?thesis by simp
  qed
  have d4: "n * 4 div 4 = n" by simp
  have "n * 4 div 1024 = n div 256" by simp
  then show "(n div 1024 * 4096 + n div 16 mod 64 * 64 + n mod 16 * 4) div 1024 = a"
    unfolding m using assms(2) by (simp add: n_def)
  show "(n div 1024 * 4096 + n div 16 mod 64 * 64 + n mod 16 * 4) div 4 mod 256 = b"
    unfolding m d4 using assms(2) by (simp add: n_def)
qed

lemma single_arith:
  fixes n :: nat
  shows "n div 4 * 4 + n mod 4 * 16 div 16 = n"
  by simp

lemma index_of_nth:
  "distinct xs \<Longrightarrow> i < length xs \<Longrightarrow> index_of (xs ! i) xs = Some i"
proof (induction xs arbitrary: i)
  case Nil
  then show ?case by simp
next
  case (Cons x xs)
  show ?case
  proof (cases i)
    case 0
    then show ?thesis by simp
  next
    case (Suc j)
    with Cons.prems have "j < length xs" "xs ! j \<in> set xs" "x \<notin> set xs" "distinct xs" by simp_all
    then have "xs ! j \<noteq> x" by blast
    with Suc Cons.IH [of j] \<open>j < length xs\<close> \<open>distinct xs\<close> show ?thesis by simp
  qed
qed

lemma b64_alphabet_length: "length b64_alphabet = 64"
  by (simp add: b64_alphabet_def)

lemma b64_alphabet_distinct: "distinct b64_alphabet"
  by (simp add: b64_alphabet_def)

lemma b64_alphabet_no_pad: "CHR ''='' \<notin> set b64_alphabet"
  by (simp add: b64_alphabet_def)

lemma b64_index_char: "i < 64 \<Longrightarrow> b64_index (b64_char i) = Some i"
  using index_of_nth [OF b64_alphabet_distinct, of i]
  by (simp add: b64_index_def b64_char_def b64_alphabet_length)

lemma b64_char_not_pad: "b64_char i \<noteq> CHR ''=''"
proof -
  have "i mod 64 < length b64_alphabet" by (simp add: b64_alphabet_length)
  then have "b64_alphabet ! (i mod 64) \<in> set b64_alphabet" by (rule nth_mem)
  with b64_alphabet_no_pad show ?thesis by (auto simp: b64_char_def)
qed

lemma byte_bound: "unat (a :: byte) < 256"
  using unsigned_less [of a, where ?'a = nat] by simp

lemma b64decode_group:
  assumes "i1 < 64" "i2 < 64" "i3 < 64" "i4 < 64"
  shows "b64decode (b64_char i1 # b64_char i2 # b64_char i3 # b64_char i4 # rest) =
     (case b64decode rest of
        None \<Rightarrow> None
      | Some bs \<Rightarrow>
          Some (of_nat ((i1 * 262144 + i2 * 4096 + i3 * 64 + i4) div 65536)
                # of_nat ((i1 * 262144 + i2 * 4096 + i3 * 64 + i4) div 256 mod 256)
                # of_nat ((i1 * 262144 + i2 * 4096 + i3 * 64 + i4) mod 256) # bs))"
  using assms by (simp add: b64_index_char b64_char_not_pad Let_def)

lemma b64decode_pad1:
  assumes "i1 < 64" "i2 < 64" "i3 < 64"
  shows "b64decode [b64_char i1, b64_char i2, b64_char i3, CHR ''=''] =
     (let n = i1 * 4096 + i2 * 64 + i3 in
      Some [of_nat (n div 1024), of_nat (n div 4 mod 256)])"
  using assms by (simp add: b64_index_char b64_char_not_pad Let_def)

lemma b64decode_pad2:
  assumes "i1 < 64" "i2 < 64"
  shows "b64decode [b64_char i1, b64_char i2, CHR ''='', CHR ''=''] =
     Some [of_nat (i1 * 4 + i2 div 16)]"
  using assms by (simp add: b64_index_char)

lemma b64_roundtrip: "b64decode (b64encode bs) = Some bs"
proof (induction bs rule: b64encode.induct)
  case 1
  then show ?case by simp
next
  case (2 a)
  let ?n = "unat a"
  have lt: "?n < 256" by (rule byte_bound)
  then have i1: "?n div 4 < 64" and i2: "?n mod 4 * 16 < 64" by simp_all
  have "b64decode (b64encode [a]) = Some [of_nat (?n div 4 * 4 + ?n mod 4 * 16 div 16)]"
    using b64decode_pad2 [OF i1 i2] by (simp add: Let_def)
  also have "?n div 4 * 4 + ?n mod 4 * 16 div 16 = ?n" by (rule single_arith)
  finally show ?case by simp
next
  case (3 a b)
  let ?n = "unat a * 256 + unat b"
  have a: "unat a < 256" and b: "unat b < 256" by (rule byte_bound)+
  note p = pair_arith [OF a b]
  have i2: "?n div 16 mod 64 < 64" and i3: "?n mod 16 * 4 < 64" by simp_all
  have "b64decode (b64encode [a, b]) =
      Some [of_nat ((?n div 1024 * 4096 + ?n div 16 mod 64 * 64 + ?n mod 16 * 4) div 1024),
            of_nat ((?n div 1024 * 4096 + ?n div 16 mod 64 * 64 + ?n mod 16 * 4) div 4 mod 256)]"
    using b64decode_pad1 [OF p(1) i2 i3] by (simp add: Let_def)
  then show ?case by (simp only: p(2,3)) simp
next
  case (4 a b c rest)
  let ?n = "unat a * 65536 + unat b * 256 + unat c"
  have a: "unat a < 256" and b: "unat b < 256" and c: "unat c < 256" by (rule byte_bound)+
  have i1: "?n div 262144 < 64" using a b c by (rule sextet_top)
  have i2: "?n div 4096 mod 64 < 64" and i3: "?n div 64 mod 64 < 64" and i4: "?n mod 64 < 64"
    by simp_all
  have s: "?n div 262144 * 262144 + ?n div 4096 mod 64 * 4096 + ?n div 64 mod 64 * 64 + ?n mod 64 = ?n"
    by (rule sextets_of)
  note o = octets_of [OF b c, of "unat a"]
  have e: "b64encode (a # b # c # rest) =
      b64_char (?n div 262144) # b64_char (?n div 4096 mod 64) # b64_char (?n div 64 mod 64)
      # b64_char (?n mod 64) # b64encode rest"
    by (simp add: Let_def)
  have "b64decode (b64encode (a # b # c # rest)) =
      Some (of_nat (?n div 65536) # of_nat (?n div 256 mod 256) # of_nat (?n mod 256) # rest)"
    unfolding e b64decode_group [OF i1 i2 i3 i4] s using "4.IH" by (simp add: Let_def)
  then show ?case by (simp only: o) simp
qed



lemma utf8_example: "binary_of (Text [104, 233]) = Inr [104, 195, 169]"
  by (simp add: binary_of_def utf8_code_point_def)

section \<open>Staging a file\<close>

lemma validated_files_encoded:
  "validated_files [(path, Some (b64encode bs))] = Inr [(path, Some bs)]"
  by (simp add: b64_roundtrip)

lemma validated_files_None:
  "validated_files [(path, None)] = Inr [(path, None)]"
  by simp












section \<open>Every call with a collection uuid\<close>

lemma map_of_pop: "k' \<noteq> k \<Longrightarrow> map_of (pop k kwargs) k' = map_of kwargs k'"
  by (induction kwargs) (auto simp: pop_def)

lemma map_of_set_str_field:
  "k' \<noteq> k \<Longrightarrow> map_of (snd (set_str_field k setattr bf)) k' = map_of (snd bf) k'"
  by (simp add: set_str_field_def map_of_pop split: option.splits)

lemma update_bundle_collection_uuid_always_raises:
  assumes "objects_get (\<lambda>b. bm_uuid b = u) (Bundle_objects s) = Inr b"
    and "map_of kwargs ''collection_uuid'' = Some v"
  shows "update_bundle s u kwargs = Inl AssertionError"
proof -
  let ?bf = "set_str_field ''slug'' (\<lambda>t b. b\<lparr>bm_slug := t\<rparr>)
               (set_str_field ''description'' (\<lambda>t b. b\<lparr>bm_description := t\<rparr>)
                  (set_str_field ''title'' (\<lambda>t b. b\<lparr>bm_title := t\<rparr>) (b, kwargs)))"
  obtain x1 x2 where bf: "?bf = (x1, x2)" by (cases ?bf) blast
  have "map_of (snd ?bf) ''collection_uuid'' = Some v"
    using assms(2) by (simp add: map_of_set_str_field)
  with bf have m: "map_of x2 ''collection_uuid'' = Some v" by simp
  show ?thesis
    using assms(1) py_str_not_UUID [of v] bf m
    by (simp add: update_bundle_def Let_def)
qed

end
